theory Spec2Isabelle
  imports Main "HOL-Library.Sublist" "HOL-Library.Char_ord"
begin

section \<open>Strings as the two tools use them\<close>

text \<open>
  Python strings are modelled as \<open>string\<close> (lists of 8-bit characters). Case folding is
  the ASCII one: the upper-case letters \<open>A\<close> to \<open>Z\<close> move to their lower-case forms, 32
  code points up, and every other character is left alone.
\<close>

definition lower_char :: "char \<Rightarrow> char" where
  "lower_char c =
     (if CHR ''A'' \<le> c \<and> c \<le> CHR ''Z'' then char_of (of_char c + (32::nat)) else c)"

text \<open>\<open>s.lower()\<close>.\<close>

definition lower :: "string \<Rightarrow> string" where
  "lower s = map lower_char s"

text \<open>\<open>s.startswith(p)\<close>.\<close>

definition startswith :: "string \<Rightarrow> string \<Rightarrow> bool" where
  "startswith s p = (take (length p) s = p)"

text \<open>\<open>k in s\<close> on strings: \<open>k\<close> occurs in \<open>s\<close> as a contiguous run.\<close>

fun contains :: "string \<Rightarrow> string \<Rightarrow> bool" where
  "contains [] k = (k = [])"
| "contains (c # cs) k = (startswith (c # cs) k \<or> contains cs k)"

text \<open>\<open>s.rstrip("/")\<close>: every trailing slash is removed, not only one.\<close>

definition rstrip_slash :: "string \<Rightarrow> string" where
  "rstrip_slash s = rev (dropWhile (\<lambda>c. c = CHR ''/'') (rev s))"

text \<open>\<open>s.startswith(("http://", "https://"))\<close>.\<close>

definition has_scheme_prefix :: "string \<Rightarrow> bool" where
  "has_scheme_prefix s = (startswith s ''http://'' \<or> startswith s ''https://'')"

text \<open>\<open>s.split(".")\<close> and \<open>".".join(parts)\<close>.\<close>

fun split_dot :: "string \<Rightarrow> string list" where
  "split_dot [] = [[]]"
| "split_dot (c # cs) =
     (if c = CHR ''.'' then [] # split_dot cs
      else (case split_dot cs of [] \<Rightarrow> [[c]] | w # ws \<Rightarrow> (c # w) # ws))"

fun join_dot :: "string list \<Rightarrow> string" where
  "join_dot [] = []"
| "join_dot [w] = w"
| "join_dot (w # v # ws) = w @ ''.'' @ join_dot (v # ws)"

text \<open>
  A loop that returns from inside at the first candidate for which its body yields a
  result: \<open>for x in xs: ... return y\<close>.
\<close>

fun first_some :: "('a \<Rightarrow> 'b option) \<Rightarrow> 'a list \<Rightarrow> 'b option" where
  "first_some f [] = None"
| "first_some f (x # xs) = (case f x of Some y \<Rightarrow> Some y | None \<Rightarrow> first_some f xs)"

section \<open>The URL resolver\<close>

text \<open>
  \<open>find_career_page\<close> repeats the same three lines in strategies 1, 2 and 3
  (\<open>career_page_url_finder.py\<close>, lines 180-183, 198-201 and 213-216):
  \<^verbatim>\<open>
  if href.startswith("/"):
      href = base_url.rstrip("/") + href
  elif not href.startswith(("http://", "https://")):
      href = base_url.rstrip("/") + "/" + href
  \<close>
  They are the resolver; the model gives them one name.
\<close>

definition resolve :: "string \<Rightarrow> string \<Rightarrow> string" where
  "resolve base_url href =
     (if startswith href ''/'' then rstrip_slash base_url @ href
      else if \<not> has_scheme_prefix href then rstrip_slash base_url @ ''/'' @ href
      else href)"

section \<open>The link classifier: third-party job boards\<close>

text \<open>
  The templates of \<open>THIRD_PARTY_PATTERNS\<close> are regular expressions built from two
  pieces only: literal text (with the dots escaped) and the capture group \<open>([^/]+)\<close>,
  one or more characters other than a slash. A template is the list of its pieces.
\<close>

datatype rx = Lit string | Group

text \<open>
  Matching a literal under \<open>re.I\<close>: character by character, ignoring ASCII case; the
  result is the text left after the literal.
\<close>

fun match_lit :: "string \<Rightarrow> string \<Rightarrow> string option" where
  "match_lit [] s = Some s"
| "match_lit (c # l) [] = None"
| "match_lit (c # l) (d # s) = (if lower_char c = lower_char d then match_lit l s else None)"

text \<open>
  Matching a template at the start of a text, as Python's backtracking matcher does: the
  group is greedy, so it first takes the longest run of non-slash characters and gives
  characters back one at a time until the rest of the template matches. The result is
  the list of captured groups.
\<close>

fun rx_match :: "rx list \<Rightarrow> string \<Rightarrow> string list option" where
  "rx_match [] s = Some []"
| "rx_match (Lit l # rs) s =
     (case match_lit l s of None \<Rightarrow> None | Some rest \<Rightarrow> rx_match rs rest)"
| "rx_match (Group # rs) s =
     first_some
       (\<lambda>n. case rx_match rs (drop n s) of None \<Rightarrow> None | Some gs \<Rightarrow> Some (take n s # gs))
       (rev [1..<Suc (length (takeWhile (\<lambda>c. c \<noteq> CHR ''/'') s))])"

text \<open>\<open>re.search(pattern, s, re.I)\<close>: the match at the leftmost position that has one.\<close>

definition re_search :: "rx list \<Rightarrow> string \<Rightarrow> string list option" where
  "re_search pattern s = first_some (\<lambda>i. rx_match pattern (drop i s)) [0..<Suc (length s)]"

definition THIRD_PARTY_PATTERNS :: "rx list list" where
  "THIRD_PARTY_PATTERNS =
    [[Lit ''jobs.lever.co/'', Group],
     [Group, Lit ''.lever.co''],
     [Lit ''boards.greenhouse.io/'', Group],
     [Lit ''jobs.greenhouse.io/'', Group],
     [Lit ''jobs.ashbyhq.com/'', Group],
     [Group, Lit ''.bamboohr.com/jobs''],
     [Lit ''workday.'', Group, Lit ''.com/careers''],
     [Group, Lit ''.workday.com/careers''],
     [Group, Lit ''.recruitee.com''],
     [Group, Lit ''.applytojob.com''],
     [Group, Lit ''.breezy.hr''],
     [Group, Lit ''.comeet.com/jobs''],
     [Group, Lit ''.teamtailor.com''],
     [Group, Lit ''.rippling-ats.com''],
     [Lit ''linkedin.com/company/'', Group, Lit ''/jobs''],
     [Lit ''indeed.com/cmp/'', Group, Lit ''/jobs''],
     [Lit ''smartrecruiters.com/'', Group]]"

text \<open>
  The classifier is the inner loop of strategy 1 (lines 156-159):
  \<open>for pattern in THIRD_PARTY_PATTERNS: if re.search(pattern, href, re.I): ...\<close>.
  Its value here is the match the loop stops at (the captured groups of the first
  template that matches), or \<open>None\<close> when the loop runs to its end.
\<close>

definition third_party_match :: "string \<Rightarrow> string list option" where
  "third_party_match href =
     first_some (\<lambda>pattern. re_search pattern href) THIRD_PARTY_PATTERNS"

section \<open>The catalogs of the discovery tool\<close>

definition URL_PATTERNS :: "string list" where
  "URL_PATTERNS =
    [''/careers'', ''/jobs'', ''/join-us'', ''/work-with-us'', ''/join'',
     ''/job-openings'', ''/vacancies'', ''/positions'', ''/employment'',
     ''/career'', ''/work'', ''/hiring'', ''/apply'', ''/job-opportunities'',
     ''/opportunities'', ''/career-opportunities'', ''/open-opportunities'',
     ''/current-opportunities'', ''/job-opportunities'',
     ''/open-positions'', ''/openings'', ''/current-openings'', ''/job-openings'',
     ''/company/careers'', ''/company/jobs'', ''/company/join-us'', ''/company/work-with-us'',
     ''/company/opportunities'', ''/company/openings'', ''/company/positions'',
     ''/about/careers'', ''/about/jobs'', ''/about/join-us'', ''/about/work-with-us'',
     ''/about/opportunities'', ''/about-us/careers'', ''/about-us/jobs'',
     ''/team/join'', ''/team/careers'', ''/team/jobs'', ''/join-the-team'',
     ''/our-team/careers'', ''/our-team/jobs'',
     ''/life/careers'', ''/life/jobs'', ''/life'', ''/life-at-company'',
     ''/hr/careers'', ''/hr/jobs'', ''/hr/opportunities'', ''/recruitment'',
     ''/career-opportunities'', ''/job-opportunities'', ''/job-openings'',
     ''/us/careers'', ''/usa/careers'', ''/en/careers'', ''/global/careers'',
     ''/careers/india'', ''/jobs/india'', ''/careers/remote'']"

definition SUBDOMAIN_PATTERNS :: "string list" where
  "SUBDOMAIN_PATTERNS =
    [''careers'', ''jobs'', ''work'', ''employment'', ''hiring'', ''joinus'',
     ''apply'', ''talent'', ''hr'', ''recruitment'', ''join'',
     ''opportunities'', ''team'']"

text \<open>
  The link-text patterns are regular expressions that the browser applies
  (\<open>filter(has_text=re.compile(career_text, re.I))\<close>); the tool itself only walks them in
  order. \<open>ws\<close> is the regular-expression fragment for one or more white-space characters,
  a backslash followed by \<open>s+\<close>.
\<close>

definition ws :: string where
  "ws = CHR 0x5C # ''s+''"

definition LINK_TEXTS :: "string list" where
  "LINK_TEXTS =
    [''career'', ''job'', ''employment'', ''position'', ''vacanc'',
     ''opening'', ''opportunit'',
     ''join('' @ ws @ ''the)?'' @ ws @ ''team'', ''join'' @ ws @ ''us'',
     ''work'' @ ws @ ''(with|for)'' @ ws @ ''us'',
     ''we.?re'' @ ws @ ''hiring'', ''we'' @ ws @ ''are'' @ ws @ ''hiring'',
     ''apply'' @ ws @ ''(now|today)'', ''work'' @ ws @ ''at'', ''work'' @ ws @ ''for'',
     ''explore'' @ ws @ ''(job|career)'', ''find'' @ ws @ ''a'' @ ws @ ''(job|career)'',
     ''become'' @ ws @ ''part'' @ ws @ ''of'', ''apply'' @ ws @ ''for'',
     ''current'' @ ws @ ''(opening|position|vacanc)'',
     ''career'' @ ws @ ''path'', ''job'' @ ws @ ''search'',
     ''join'' @ ws @ ''our'' @ ws @ ''talent'',
     ''life'' @ ws @ ''at'', ''work'' @ ws @ ''life'']"

text \<open>The navigation labels of strategy 1 (line 164).\<close>

definition NAV_TEXTS :: "string list" where
  "NAV_TEXTS = [''company'', ''about'', ''about us'', ''team'', ''life'', ''work'']"

text \<open>
  The three career-signal tests on page content are searches for an alternation of plain
  words under \<open>re.I\<close>: some word occurs in the content, ignoring case. Lines 124 and 267
  use the first list, line 234 the second.
\<close>

definition SIGNAL_WORDS :: "string list" where
  "SIGNAL_WORDS = [''career'', ''job'', ''position'', ''opening'', ''opportunit'', ''vacanc'']"

definition DIRECT_SIGNAL_WORDS :: "string list" where
  "DIRECT_SIGNAL_WORDS =
    [''career'', ''job'', ''position'', ''opening'', ''opportunit'', ''work with us'',
     ''employ'', ''vacanc'']"

definition search_words :: "string list \<Rightarrow> string \<Rightarrow> bool" where
  "search_words words content = list_ex (\<lambda>w. contains (lower content) w) words"

section \<open>The browser, as the discovery tool sees it\<close>

datatype error = IndexError | AttributeError | TimeoutError | PlaywrightError

text \<open>
  Every awaited browser call either raises (\<open>Inl\<close>) or returns (\<open>Inr\<close>). What it does is
  not in the tool's hands, so each call site is a field of a record, a function of the
  loop variables the call depends on; the tool runs each call site at most once for each
  value of these, so this describes every behaviour of the browser. A response is its
  status, or \<open>None\<close> when \<open>goto\<close> returns no response.

  \<open>playwright\<close> is the private browser that \<open>check_subdomain_urls\<close> starts:
  \<^item> \<open>launch\<close>: entering \<open>async_playwright()\<close>, \<open>chromium.launch\<close> and \<open>new_page\<close>
    (lines 113-115);
  \<^item> \<open>sub_goto\<close>, \<open>sub_content\<close>: lines 120 and 123, for a subdomain URL;
  \<^item> \<open>close_found\<close>: \<open>browser.close()\<close> before \<open>return url\<close> (line 126, inside the
    \<open>try\<close>);
  \<^item> \<open>close_end\<close>: \<open>browser.close()\<close> after the loop (line 131);
  \<^item> \<open>leave\<close>: leaving the \<open>async with\<close> block.
\<close>

record playwright =
  launch :: "error + unit"
  sub_goto :: "string \<Rightarrow> error + nat option"
  sub_content :: "string \<Rightarrow> error + string"
  close_found :: "string \<Rightarrow> error + unit"
  close_end :: "error + unit"
  leave :: "error + unit"

text \<open>
  \<open>page\<close> is the page handle passed to \<open>find_career_page\<close>:
  \<^item> \<open>home_goto\<close>, \<open>home_idle\<close>: lines 146 and 147;
  \<^item> \<open>all_links\<close>: line 150, the link handles, each given by what its
    \<open>get_attribute("href")\<close> does (line 153);
  \<^item> \<open>nav_count\<close>, \<open>nav_hover\<close>, \<open>nav_settle\<close>: lines 168, 170 and 171, for a navigation
    label;
  \<^item> \<open>dropdown_count\<close>, \<open>dropdown_href\<close>: lines 176 and 177, for a navigation label and a
    link-text pattern;
  \<^item> \<open>footer_count\<close>: line 190; \<open>footer_link_count\<close>, \<open>footer_link_href\<close>: lines 194 and
    195, for a link-text pattern;
  \<^item> \<open>page_link_count\<close>, \<open>page_link_href\<close>: lines 209 and 210;
  \<^item> \<open>direct_goto\<close>, \<open>direct_content\<close>: lines 228 and 233, for the position of a path in
    \<open>URL_PATTERNS\<close> (some paths occur twice) and the URL tested;
  \<^item> \<open>search_goto\<close>: line 253, for the search URL; \<open>search_idle\<close>, \<open>results_count\<close>,
    \<open>results_text\<close>, \<open>results_click\<close>, \<open>click_idle\<close>, \<open>current_url\<close>, \<open>result_content\<close>:
    lines 254, 258, 260, 261, 262, 265 and 266, for a query.
\<close>

record page =
  home_goto :: "string \<Rightarrow> error + unit"
  home_idle :: "error + unit"
  all_links :: "error + (error + string option) list"
  nav_count :: "string \<Rightarrow> error + nat"
  nav_hover :: "string \<Rightarrow> error + unit"
  nav_settle :: "string \<Rightarrow> error + unit"
  dropdown_count :: "string \<Rightarrow> string \<Rightarrow> error + nat"
  dropdown_href :: "string \<Rightarrow> string \<Rightarrow> error + string option"
  footer_count :: "error + nat"
  footer_link_count :: "string \<Rightarrow> error + nat"
  footer_link_href :: "string \<Rightarrow> error + string option"
  page_link_count :: "string \<Rightarrow> error + nat"
  page_link_href :: "string \<Rightarrow> error + string option"
  direct_goto :: "nat \<Rightarrow> string \<Rightarrow> error + nat option"
  direct_content :: "nat \<Rightarrow> string \<Rightarrow> error + string"
  search_goto :: "string \<Rightarrow> error + unit"
  search_idle :: "string \<Rightarrow> error + unit"
  results_count :: "string \<Rightarrow> error + nat"
  results_text :: "string \<Rightarrow> error + unit"
  results_click :: "string \<Rightarrow> error + unit"
  click_idle :: "string \<Rightarrow> error + unit"
  current_url :: "string \<Rightarrow> string"
  result_content :: "string \<Rightarrow> error + string"

text \<open>Sequencing two calls: an exception of the first skips the second.\<close>

definition and_then :: "error + 'a \<Rightarrow> ('a \<Rightarrow> error + 'b) \<Rightarrow> error + 'b" where
  "and_then m f = (case m of Inl e \<Rightarrow> Inl e | Inr x \<Rightarrow> f x)"

text \<open>\<open>response and response.status < 400\<close>.\<close>

definition status_ok :: "nat option \<Rightarrow> bool" where
  "status_ok response = (case response of None \<Rightarrow> False | Some status \<Rightarrow> status < 400)"

text \<open>The truth value of an optional string: neither \<open>None\<close> nor empty.\<close>

definition truthy :: "string option \<Rightarrow> bool" where
  "truthy v = (case v of None \<Rightarrow> False | Some s \<Rightarrow> s \<noteq> [])"

section \<open>Strategy 0: career subdomains\<close>

text \<open>
  \<open>re.match(r'https?://(?:www\.)?([^/]+)', base_url)\<close> and its first group (lines
  100-104). The optional \<open>www.\<close> is consumed when a non-empty host follows it; otherwise
  the matcher backtracks and the group starts right after the scheme.
\<close>

definition parse_domain :: "string \<Rightarrow> string option" where
  "parse_domain base_url =
     (let after_scheme =
            (if startswith base_url ''https://'' then Some (drop 8 base_url)
             else if startswith base_url ''http://'' then Some (drop 7 base_url)
             else None)
      in case after_scheme of
           None \<Rightarrow> None
         | Some rest \<Rightarrow>
             (let host = takeWhile (\<lambda>c. c \<noteq> CHR ''/'') rest;
                  host_after_www = takeWhile (\<lambda>c. c \<noteq> CHR ''/'') (drop 4 rest)
              in if startswith rest ''www.'' \<and> host_after_www \<noteq> [] then Some host_after_www
                 else if host \<noteq> [] then Some host
                 else None))"

text \<open>Lines 105-109: the last two labels of the domain, under each subdomain name.\<close>

definition subdomain_urls :: "string \<Rightarrow> string list" where
  "subdomain_urls domain =
     (let parts = split_dot domain;
          base_domain = join_dot (drop (length parts - 2) parts)
      in map (\<lambda>pattern. ''https://'' @ pattern @ ''.'' @ base_domain) SUBDOMAIN_PATTERNS)"

text \<open>
  The body of the \<open>try\<close> of lines 118-127 for one URL: \<open>Inr True\<close> when it reaches
  \<open>return url\<close>, \<open>Inr False\<close> when it falls out of the \<open>if\<close>s, \<open>Inl\<close> when a call raises.
\<close>

definition probe_subdomain :: "playwright \<Rightarrow> string \<Rightarrow> error + bool" where
  "probe_subdomain pw url =
     and_then (sub_goto pw url) (\<lambda>response.
       if status_ok response
       then and_then (sub_content pw url) (\<lambda>content.
              if search_words SIGNAL_WORDS content
              then and_then (close_found pw url) (\<lambda>_. Inr True)
              else Inr False)
       else Inr False)"

text \<open>The loop of lines 117-129; \<open>except Exception: continue\<close> goes on to the next URL.\<close>

fun try_subdomains :: "playwright \<Rightarrow> string list \<Rightarrow> string option" where
  "try_subdomains pw [] = None"
| "try_subdomains pw (url # urls) =
     (case probe_subdomain pw url of
        Inl e \<Rightarrow> try_subdomains pw urls
      | Inr found \<Rightarrow> if found then Some url else try_subdomains pw urls)"

definition check_subdomain_urls :: "playwright \<Rightarrow> string \<Rightarrow> error + string option" where
  "check_subdomain_urls pw base_url =
     (case parse_domain base_url of
        None \<Rightarrow> Inr None
      | Some domain \<Rightarrow>
          and_then (launch pw) (\<lambda>_.
            case try_subdomains pw (subdomain_urls domain) of
              Some url \<Rightarrow> and_then (leave pw) (\<lambda>_. Inr (Some url))
            | None \<Rightarrow> and_then (close_end pw) (\<lambda>_. and_then (leave pw) (\<lambda>_. Inr None))))"

section \<open>Strategies 1 to 3: the homepage\<close>

text \<open>
  The loop of lines 151-161 over the link handles. A \<open>get_attribute\<close> that raises is
  caught by the bare \<open>except\<close> and the loop goes on; an href that is \<open>None\<close> or empty
  is skipped; the first href that some template matches is returned as it is.
\<close>

fun third_party_link :: "(error + string option) list \<Rightarrow> string option" where
  "third_party_link [] = None"
| "third_party_link (link # links) =
     (case link of
        Inl e \<Rightarrow> third_party_link links
      | Inr href \<Rightarrow>
          if truthy href \<and> third_party_match (the href) \<noteq> None then href
          else third_party_link links)"

text \<open>
  The loop over \<open>LINK_TEXTS\<close> that strategies 1, 2 and 3 share (lines 174-185, 192-203
  and 207-218), over the two calls that differ between them: the count of the links that
  match a pattern and the href of the first of them. No call of it is inside a \<open>try\<close>
  of its own, so an exception ends the loop.
\<close>

fun scan_links ::
  "(string \<Rightarrow> error + nat) \<Rightarrow> (string \<Rightarrow> error + string option) \<Rightarrow> string \<Rightarrow> string list
     \<Rightarrow> error + string option" where
  "scan_links link_count link_href base_url [] = Inr None"
| "scan_links link_count link_href base_url (career_text # rest) =
     (case link_count career_text of
        Inl e \<Rightarrow> Inl e
      | Inr n \<Rightarrow>
          if n > 0
          then (case link_href career_text of
                  Inl e \<Rightarrow> Inl e
                | Inr href \<Rightarrow>
                    if truthy href then Inr (Some (resolve base_url (the href)))
                    else scan_links link_count link_href base_url rest)
          else scan_links link_count link_href base_url rest)"

text \<open>The loop of lines 164-185 over the navigation labels.\<close>

fun nav_menus :: "page \<Rightarrow> string \<Rightarrow> string list \<Rightarrow> error + string option" where
  "nav_menus pg base_url [] = Inr None"
| "nav_menus pg base_url (nav_text # rest) =
     (case nav_count pg nav_text of
        Inl e \<Rightarrow> Inl e
      | Inr n \<Rightarrow>
          if n > 0
          then (case and_then (nav_hover pg nav_text) (\<lambda>_.
                       and_then (nav_settle pg nav_text) (\<lambda>_.
                         scan_links (dropdown_count pg nav_text) (dropdown_href pg nav_text)
                           base_url LINK_TEXTS)) of
                  Inl e \<Rightarrow> Inl e
                | Inr href \<Rightarrow> if href \<noteq> None then Inr href else nav_menus pg base_url rest)
          else nav_menus pg base_url rest)"

text \<open>
  Each of the three strategies as the source runs it inside the one \<open>try\<close> of lines
  144-220: \<open>Inl\<close> is an exception leaving the strategy, \<open>Inr None\<close> is falling through to
  the code after it, \<open>Inr (Some href)\<close> is a \<open>return href\<close>.
\<close>

definition strategy1 :: "page \<Rightarrow> string \<Rightarrow> error + string option" where
  "strategy1 pg base_url =
     and_then (home_goto pg base_url) (\<lambda>_.
       and_then (home_idle pg) (\<lambda>_.
         and_then (all_links pg) (\<lambda>links.
           case third_party_link links of
             Some href \<Rightarrow> Inr (Some href)
           | None \<Rightarrow> nav_menus pg base_url NAV_TEXTS)))"

definition strategy2 :: "page \<Rightarrow> string \<Rightarrow> error + string option" where
  "strategy2 pg base_url =
     and_then (footer_count pg) (\<lambda>n.
       if n > 0 then scan_links (footer_link_count pg) (footer_link_href pg) base_url LINK_TEXTS
       else Inr None)"

definition strategy3 :: "page \<Rightarrow> string \<Rightarrow> error + string option" where
  "strategy3 pg base_url =
     scan_links (page_link_count pg) (page_link_href pg) base_url LINK_TEXTS"

section \<open>Strategy 4: direct URL patterns\<close>

text \<open>The body of the \<open>try\<close> of lines 225-236 for one path.\<close>

definition probe_direct :: "page \<Rightarrow> nat \<Rightarrow> string \<Rightarrow> error + bool" where
  "probe_direct pg i test_url =
     and_then (direct_goto pg i test_url) (\<lambda>response.
       if status_ok response
       then and_then (direct_content pg i test_url) (\<lambda>content.
              Inr (search_words DIRECT_SIGNAL_WORDS content))
       else Inr False)"

text \<open>The loop of lines 224-238 over the paths with their positions; \<open>except: pass\<close>.\<close>

fun try_patterns :: "page \<Rightarrow> string \<Rightarrow> (nat \<times> string) list \<Rightarrow> string option" where
  "try_patterns pg base_url [] = None"
| "try_patterns pg base_url ((i, pattern) # rest) =
     (let test_url = rstrip_slash base_url @ pattern
      in case probe_direct pg i test_url of
           Inl e \<Rightarrow> try_patterns pg base_url rest
         | Inr found \<Rightarrow> if found then Some test_url else try_patterns pg base_url rest)"

definition strategy4 :: "page \<Rightarrow> string \<Rightarrow> string option" where
  "strategy4 pg base_url = try_patterns pg base_url (enumerate 0 URL_PATTERNS)"

section \<open>Strategy 5: the search fallback\<close>

definition search_queries :: "string \<Rightarrow> string list" where
  "search_queries company_name =
     [company_name @ '' careers'', company_name @ '' jobs'', company_name @ '' hiring'',
      company_name @ '' join team'', company_name @ '' careers page'']"

text \<open>The body of the \<open>try\<close> of lines 252-269 for one query.\<close>

definition search_one :: "page \<Rightarrow> string \<Rightarrow> error + string option" where
  "search_one pg query =
     and_then (search_goto pg (''https://www.google.com/search?q='' @ query)) (\<lambda>_.
       and_then (search_idle pg query) (\<lambda>_.
         and_then (results_count pg query) (\<lambda>n.
           if n > 0
           then and_then (results_text pg query) (\<lambda>_.
                  and_then (results_click pg query) (\<lambda>_.
                    and_then (click_idle pg query) (\<lambda>_.
                      and_then (result_content pg query) (\<lambda>content.
                        if search_words SIGNAL_WORDS content
                        then Inr (Some (current_url pg query))
                        else Inr None))))
           else Inr None)))"

text \<open>The loop of lines 251-271; the \<open>except\<close> logs and goes on to the next query.\<close>

fun try_queries :: "page \<Rightarrow> string list \<Rightarrow> string option" where
  "try_queries pg [] = None"
| "try_queries pg (query # rest) =
     (case search_one pg query of
        Inl e \<Rightarrow> try_queries pg rest
      | Inr None \<Rightarrow> try_queries pg rest
      | Inr (Some url) \<Rightarrow> Some url)"

definition strategy5 :: "page \<Rightarrow> string \<Rightarrow> string option" where
  "strategy5 pg company_name = try_queries pg (search_queries company_name)"

section \<open>The discovery chain\<close>

datatype strategy = Strategy0 | Strategy1 | Strategy2 | Strategy3 | Strategy4 | Strategy5

text \<open>
  The \<open>try\<close> of lines 144-220 around strategies 1, 2 and 3, with the list of the
  strategies it entered: the handler of line 219 suppresses an exception of any of the
  three, and control goes on after the block.
\<close>

definition homepage_strategies :: "page \<Rightarrow> string \<Rightarrow> strategy list \<times> string option" where
  "homepage_strategies pg base_url =
     (case strategy1 pg base_url of
        Inl e \<Rightarrow> ([Strategy1], None)
      | Inr (Some href) \<Rightarrow> ([Strategy1], Some href)
      | Inr None \<Rightarrow>
          (case strategy2 pg base_url of
             Inl e \<Rightarrow> ([Strategy1, Strategy2], None)
           | Inr (Some href) \<Rightarrow> ([Strategy1, Strategy2], Some href)
           | Inr None \<Rightarrow>
               (case strategy3 pg base_url of
                  Inl e \<Rightarrow> ([Strategy1, Strategy2, Strategy3], None)
                | Inr href \<Rightarrow> ([Strategy1, Strategy2, Strategy3], href))))"

text \<open>
  \<open>find_career_page\<close>. Its value is the list of the strategies it invoked, in the order
  of invocation, and its outcome: \<open>Inl\<close> for an exception that leaves it, \<open>Inr None\<close> for
  \<open>return None\<close>, \<open>Inr (Some url)\<close> for a returned URL.
\<close>

definition find_career_page ::
  "playwright \<Rightarrow> page \<Rightarrow> string \<Rightarrow> string \<Rightarrow> strategy list \<times> (error + string option)" where
  "find_career_page pw pg base_url company_name =
     (case check_subdomain_urls pw base_url of
        Inl e \<Rightarrow> ([Strategy0], Inl e)
      | Inr subdomain_url \<Rightarrow>
          if truthy subdomain_url then ([Strategy0], Inr subdomain_url)
          else (case homepage_strategies pg base_url of
                  (entered, Some href) \<Rightarrow> (Strategy0 # entered, Inr (Some href))
                | (entered, None) \<Rightarrow>
                    (case strategy4 pg base_url of
                       Some test_url \<Rightarrow> (Strategy0 # entered @ [Strategy4], Inr (Some test_url))
                     | None \<Rightarrow>
                         (Strategy0 # entered @ [Strategy4, Strategy5],
                          Inr (strategy5 pg company_name)))))"

text \<open>What one strategy does on its own, for the statements about the chain.\<close>

fun attempt ::
  "playwright \<Rightarrow> page \<Rightarrow> string \<Rightarrow> string \<Rightarrow> strategy \<Rightarrow> error + string option" where
  "attempt pw pg base_url company_name Strategy0 = check_subdomain_urls pw base_url"
| "attempt pw pg base_url company_name Strategy1 = strategy1 pg base_url"
| "attempt pw pg base_url company_name Strategy2 = strategy2 pg base_url"
| "attempt pw pg base_url company_name Strategy3 = strategy3 pg base_url"
| "attempt pw pg base_url company_name Strategy4 = Inr (strategy4 pg base_url)"
| "attempt pw pg base_url company_name Strategy5 = Inr (strategy5 pg company_name)"

text \<open>The number of a strategy, as the comments of the source give it.\<close>

fun rank :: "strategy \<Rightarrow> nat" where
  "rank Strategy0 = 0"
| "rank Strategy1 = 1"
| "rank Strategy2 = 2"
| "rank Strategy3 = 3"
| "rank Strategy4 = 4"
| "rank Strategy5 = 5"

section \<open>The job-parsing tool\<close>

subsection \<open>Loading the job boards\<close>

text \<open>
  A cell of the data frame that \<open>pd.read_csv\<close> returns: a string, the float \<open>nan\<close> of an
  empty field, or a number. A row of the frame is the list of its cells.
\<close>

datatype cell = Str string | NaN | Number int

record job_board =
  board_company :: cell
  board_url :: string

text \<open>
  The loop of \<open>load_job_boards\<close> over the rows, with the list it appends to
  (lines 76-87). \<open>row.iloc[0]\<close> raises \<open>IndexError\<close> on a row with no column; the
  test of lines 80-83 keeps a row only when its last cell is a string with one of the two
  prefixes.
\<close>

fun load_rows :: "cell list list \<Rightarrow> job_board list \<Rightarrow> error + job_board list" where
  "load_rows [] job_boards = Inr job_boards"
| "load_rows (row # rows) job_boards =
     (case row of
        [] \<Rightarrow> Inl IndexError
      | company_name # _ \<Rightarrow>
          (case last row of
             Str job_board_url \<Rightarrow>
               if startswith job_board_url ''http://'' \<or> startswith job_board_url ''https://''
               then load_rows rows
                      (job_boards @
                         [\<lparr>board_company = company_name, board_url = job_board_url\<rparr>])
               else load_rows rows job_boards
           | NaN \<Rightarrow> load_rows rows job_boards
           | Number n \<Rightarrow> load_rows rows job_boards))"

definition load_job_boards :: "cell list list \<Rightarrow> error + job_board list" where
  "load_job_boards df = load_rows df []"

subsection \<open>Filtering the parsed jobs\<close>

text \<open>
  A parsed job is a JSON object: a dictionary from keys to JSON values. The filter reads
  three of its values and calls \<open>lower\<close> on each, so of a value that is not a string it
  takes in nothing but that it is not one.
\<close>

datatype json = JString string | JNull | JBool bool | JNumber | JArray | JObject

type_synonym job = "string \<rightharpoonup> json"

text \<open>
  \<open>job.get(key, '').lower()\<close> (lines 248-250). The default for an absent key is the
  empty string; a value that is not a string has no \<open>lower\<close>, and the call raises
  \<open>AttributeError\<close>.
\<close>

definition get_lower :: "job \<Rightarrow> string \<Rightarrow> error + string" where
  "get_lower job k =
     (case job k of
        None \<Rightarrow> Inr (lower [])
      | Some (JString s) \<Rightarrow> Inr (lower s)
      | Some JNull \<Rightarrow> Inl AttributeError
      | Some (JBool b) \<Rightarrow> Inl AttributeError
      | Some JNumber \<Rightarrow> Inl AttributeError
      | Some JArray \<Rightarrow> Inl AttributeError
      | Some JObject \<Rightarrow> Inl AttributeError)"

definition role_keywords :: "string list" where
  "role_keywords = [''product manager'', ''product owner'', ''product lead'']"

definition seniority_keywords :: "string list" where
  "seniority_keywords = [''senior'', ''group'', ''staff'', ''lead'', ''principal'', ''head'']"

definition location_keywords :: "string list" where
  "location_keywords = [''bangalore'', ''bengaluru'', ''india'', ''remote'']"

text \<open>
  The three tests of lines 253-262, on the lower-cased title, location and description
  (each is lower-cased once more by the test).
\<close>

definition role_match :: "string \<Rightarrow> bool" where
  "role_match title = list_ex (\<lambda>keyword. contains (lower title) keyword) role_keywords"

definition seniority_match :: "string \<Rightarrow> bool" where
  "seniority_match title =
     list_ex (\<lambda>keyword. contains (lower title) keyword) seniority_keywords"

definition location_match :: "string \<Rightarrow> string \<Rightarrow> bool" where
  "location_match location description =
     list_ex
       (\<lambda>keyword. contains (lower location) keyword \<or> contains (lower description) keyword)
       location_keywords"

text \<open>
  The filter loop of \<open>parse_job_results\<close> (lines 246-265) over \<open>all_jobs\<close>, with the
  list \<open>filtered_jobs\<close> it appends to. The loop is inside no \<open>try\<close>: an exception of
  one of the three \<open>lower\<close> calls leaves \<open>parse_job_results\<close>, which then returns no
  job at all.
\<close>

fun filter_jobs :: "job list \<Rightarrow> job list \<Rightarrow> error + job list" where
  "filter_jobs [] filtered_jobs = Inr filtered_jobs"
| "filter_jobs (job # all_jobs) filtered_jobs =
     (case get_lower job ''title'' of
        Inl e \<Rightarrow> Inl e
      | Inr title \<Rightarrow>
          (case get_lower job ''description'' of
             Inl e \<Rightarrow> Inl e
           | Inr description \<Rightarrow>
               (case get_lower job ''location'' of
                  Inl e \<Rightarrow> Inl e
                | Inr location \<Rightarrow>
                    if role_match title \<and> seniority_match title \<and>
                       location_match location description
                    then filter_jobs all_jobs (filtered_jobs @ [job])
                    else filter_jobs all_jobs filtered_jobs)))"

text \<open>
  For the statements about the filter: a field that is a string or absent, the text the
  filter reads in it, and the three conditions on a job whose fields are such.
\<close>

definition text_or_absent :: "job \<Rightarrow> string \<Rightarrow> bool" where
  "text_or_absent job k =
     (case job k of None \<Rightarrow> True | Some (JString s) \<Rightarrow> True | Some JNull \<Rightarrow> False
      | Some (JBool b) \<Rightarrow> False | Some JNumber \<Rightarrow> False | Some JArray \<Rightarrow> False
      | Some JObject \<Rightarrow> False)"

definition get_text :: "job \<Rightarrow> string \<Rightarrow> string" where
  "get_text job k =
     (case job k of None \<Rightarrow> [] | Some (JString s) \<Rightarrow> s | Some JNull \<Rightarrow> []
      | Some (JBool b) \<Rightarrow> [] | Some JNumber \<Rightarrow> [] | Some JArray \<Rightarrow> []
      | Some JObject \<Rightarrow> [])"

definition all_text :: "job \<Rightarrow> bool" where
  "all_text job = list_all (text_or_absent job) [''title'', ''description'', ''location'']"

definition meets_all_three :: "job \<Rightarrow> bool" where
  "meets_all_three job =
     (role_match (lower (get_text job ''title'')) \<and>
      seniority_match (lower (get_text job ''title'')) \<and>
      location_match (lower (get_text job ''location'')) (lower (get_text job ''description'')))"

section \<open>Recording the outcomes\<close>

text \<open>
  A field of a row that \<open>csv.DictReader\<close> yields is a string or \<open>None\<close>: the reader
  fills the missing fields of a short row with \<open>None\<close>. A row of the input file is a
  dictionary from the column names to the fields. A row of the output store is the
  dictionary that the reader yields for it, over the four columns that
  \<open>process_companies\<close> writes and reads back, a column that a stored row lacks being
  read as \<open>None\<close>; the store is the list of its rows, in file order, and is empty when
  the file has just been created.
\<close>

datatype field = Text string | PyNone

type_synonym csv_row = "string \<rightharpoonup> field"

record outcome_row =
  company :: field
  website :: field
  career_url :: field
  timestamp :: field

text \<open>The truth value of a field: a string that is not empty.\<close>

definition field_truthy :: "field \<Rightarrow> bool" where
  "field_truthy v = (case v of Text s \<Rightarrow> s \<noteq> [] | PyNone \<Rightarrow> False)"

text \<open>\<open>row.get(k1, row.get(k2, ''))\<close>.\<close>

definition get_either :: "csv_row \<Rightarrow> string \<Rightarrow> string \<Rightarrow> field" where
  "get_either row k1 k2 =
     (case row k1 of
        Some v \<Rightarrow> v
      | None \<Rightarrow> (case row k2 of Some v \<Rightarrow> v | None \<Rightarrow> Text []))"

text \<open>The company name of an input row (lines 321 and 337).\<close>

definition company_name_of :: "csv_row \<Rightarrow> field" where
  "company_name_of row = get_either row ''company'' ''name''"

text \<open>
  The website of an input row (lines 338-341). \<open>website.startswith\<close> raises
  \<open>AttributeError\<close> when the field is \<open>None\<close>; these lines stand before the \<open>try\<close> of
  line 346.
\<close>

definition website_of :: "csv_row \<Rightarrow> error + string" where
  "website_of row =
     (case get_either row ''website'' ''url'' of
        PyNone \<Rightarrow> Inl AttributeError
      | Text site \<Rightarrow> Inr (if has_scheme_prefix site then site else ''https://'' @ site))"

text \<open>
  The company name as an f-string prints it. \<open>find_career_page\<close> uses the name in its
  search queries and its log lines only, always through an f-string, so the model hands
  it the printed name.
\<close>

definition format_field :: "field \<Rightarrow> string" where
  "format_field v = (case v of Text s \<Rightarrow> s | PyNone \<Rightarrow> ''None'')"

text \<open>The loop of lines 308-311 over the stored rows, with the set it adds to.\<close>

fun read_processed :: "outcome_row list \<Rightarrow> field set \<Rightarrow> field set" where
  "read_processed [] processed_companies = processed_companies"
| "read_processed (row # rows) processed_companies =
     (if field_truthy (career_url row)
      then read_processed rows (insert (company row) processed_companies)
      else read_processed rows processed_companies)"

text \<open>The loop of lines 320-324 over the input rows, with the list it appends to.\<close>

fun read_companies :: "csv_row list \<Rightarrow> field set \<Rightarrow> csv_row list \<Rightarrow> csv_row list" where
  "read_companies [] processed_companies companies = companies"
| "read_companies (row # rows) processed_companies companies =
     (let company_name = company_name_of row
      in if company_name \<notin> processed_companies
         then read_companies rows processed_companies (companies @ [row])
         else read_companies rows processed_companies companies)"

text \<open>
  What \<open>csv.DictWriter\<close> writes for a field: the string itself, and the empty string for
  \<open>None\<close>.
\<close>

definition written :: "field \<Rightarrow> string" where
  "written v = (case v of Text s \<Rightarrow> s | PyNone \<Rightarrow> [])"

text \<open>
  \<open>append_to_csv\<close>: the writer adds one row at the end of the store, with the four
  fields of \<open>row_dict\<close> as it writes them; a reader yields the written strings for it.
\<close>

definition append_to_csv :: "outcome_row list \<Rightarrow> outcome_row \<Rightarrow> outcome_row list" where
  "append_to_csv store row_dict =
     store @
       [\<lparr>company = Text (written (company row_dict)),
         website = Text (written (website row_dict)),
         career_url = Text (written (career_url row_dict)),
         timestamp = Text (written (timestamp row_dict))\<rparr>]"

text \<open>
  What a run gets from outside, for the company at each position of the queue: the
  private browser of strategy 0, the page that \<open>context.new_page()\<close> opens, and the clock
  reading that becomes the timestamp.
\<close>

record session =
  playwright_at :: "nat \<Rightarrow> playwright"
  page_at :: "nat \<Rightarrow> page"
  clock_at :: "nat \<Rightarrow> string"

text \<open>
  The body of the loop of lines 336-375 for the company at one position of the queue.
  \<open>Inl\<close> is an exception that leaves the body, and with it \<open>process_companies\<close>: the one
  of line 340, which no handler catches. Otherwise the value is the store afterwards and
  the call of \<open>find_career_page\<close> made: the company name and the strategies invoked. The
  two branches after the call are the \<open>try\<close> body, which records \<open>career_url or ''\<close>, and
  the \<open>except\<close> handler, which records an empty URL.
\<close>

definition process_company ::
  "session \<Rightarrow> nat \<Rightarrow> csv_row \<Rightarrow> outcome_row list
     \<Rightarrow> error + outcome_row list \<times> (field \<times> strategy list)" where
  "process_company env index row store =
     (let company_name = company_name_of row
      in case website_of row of
           Inl e \<Rightarrow> Inl e
         | Inr site \<Rightarrow>
             (let (invoked, outcome) =
                    find_career_page (playwright_at env index) (page_at env index) site
                      (format_field company_name)
              in case outcome of
                   Inr found \<Rightarrow>
                     Inr (append_to_csv store
                            \<lparr>company = company_name, website = Text site,
                             career_url = Text (if truthy found then the found else []),
                             timestamp = Text (clock_at env index)\<rparr>,
                          (company_name, invoked))
                 | Inl e \<Rightarrow>
                     Inr (append_to_csv store
                            \<lparr>company = company_name, website = Text site,
                             career_url = Text [],
                             timestamp = Text (clock_at env index)\<rparr>,
                          (company_name, invoked))))"

text \<open>
  The loop over the queue. The state is the store and the list of the calls of
  \<open>find_career_page\<close> made so far; the value is the state in which the run ends, and the
  exception that ended it, if one did.
\<close>

fun process_loop ::
  "session \<Rightarrow> nat \<Rightarrow> csv_row list \<Rightarrow> outcome_row list \<Rightarrow> (field \<times> strategy list) list
     \<Rightarrow> outcome_row list \<times> (field \<times> strategy list) list \<times> error option" where
  "process_loop env index [] store calls = (store, calls, None)"
| "process_loop env index (row # companies) store calls =
     (case process_company env index row store of
        Inl e \<Rightarrow> (store, calls, Some e)
      | Inr (store', call) \<Rightarrow> process_loop env (Suc index) companies store' (calls @ [call]))"

definition process_companies ::
  "session \<Rightarrow> outcome_row list \<Rightarrow> csv_row list
     \<Rightarrow> outcome_row list \<times> (field \<times> strategy list) list \<times> error option" where
  "process_companies env store input_rows =
     (let processed_companies = read_processed store {};
          companies = read_companies input_rows processed_companies []
      in process_loop env 0 companies store [])"






section \<open>Notions of the specification about URLs\<close>

text \<open>
  The specification of the resolver speaks of the scheme and host of the base URL, of an
  href that has a scheme, and of a doubled slash in the path. These three notions are
  not in the source; they are defined here from the specification's words, to state what
  it asks of \<open>resolve\<close>.
\<close>

definition spec_scheme_host :: "string \<Rightarrow> string" where
  "spec_scheme_host base_url =
     (if startswith base_url ''https://''
      then ''https://'' @ takeWhile (\<lambda>c. c \<noteq> CHR ''/'') (drop 8 base_url)
      else if startswith base_url ''http://''
      then ''http://'' @ takeWhile (\<lambda>c. c \<noteq> CHR ''/'') (drop 7 base_url)
      else base_url)"

definition spec_path :: "string \<Rightarrow> string" where
  "spec_path u = drop (length (spec_scheme_host u)) u"

definition is_letter :: "char \<Rightarrow> bool" where
  "is_letter c = ((CHR ''a'' \<le> c \<and> c \<le> CHR ''z'') \<or> (CHR ''A'' \<le> c \<and> c \<le> CHR ''Z''))"

definition is_scheme_char :: "char \<Rightarrow> bool" where
  "is_scheme_char c =
     (is_letter c \<or> (CHR ''0'' \<le> c \<and> c \<le> CHR ''9'') \<or> c \<in> set ''+-.'')"

text \<open>A scheme: a letter, then letters, digits, plus, minus or dot, up to a colon.\<close>

definition spec_has_scheme :: "string \<Rightarrow> bool" where
  "spec_has_scheme href =
     (let name = takeWhile (\<lambda>c. c \<noteq> CHR '':'') href
      in name \<noteq> [] \<and> length name < length href \<and> is_letter (hd name) \<and>
         list_all is_scheme_char name)"

definition spec_double_slash :: "string \<Rightarrow> bool" where
  "spec_double_slash u = contains (spec_path u) ''//''"

section \<open>Concrete inputs\<close>

text \<open>Inputs at which the theorems below are instantiated.\<close>

definition berlin_job :: job where
  "berlin_job =
     [''title'' \<mapsto> JString ''Senior Product Manager'', ''location'' \<mapsto> JString ''Berlin'']"

definition bengaluru_job :: job where
  "bengaluru_job =
     [''title'' \<mapsto> JString ''Senior Product Manager'',
      ''location'' \<mapsto> JString ''Bengaluru, India'']"

text \<open>
  A job as the browsing agent may report it: the three conditions hold of its title and
  its location, and its description is \<open>null\<close>.
\<close>

definition null_description_job :: job where
  "null_description_job =
     [''title'' \<mapsto> JString ''Lead Product Manager'', ''company'' \<mapsto> JString ''Acme'',
      ''location'' \<mapsto> JString ''Remote'', ''description'' \<mapsto> JNull]"

definition boards_frame :: "cell list list" where
  "boards_frame =
     [[Str ''Acme'', Str ''https://acme.com'', Str ''https://jobs.lever.co/acme''],
      [Str ''Globex'', Str ''https://globex.com'', NaN],
      [Str ''Initech'', Str ''https://initech.com'', Str ''initech.com/careers'']]"

text \<open>
  A private browser whose every navigation times out, and a page on which every call
  raises; the pages below change a few calls of it. \<open>lever_page\<close> loads a homepage with
  a protocol-relative link to a job board; \<open>hover_fails_page\<close> loads a homepage whose
  navigation label cannot be hovered and whose footer holds a career link;
  \<open>footer_page\<close> is the same homepage without any navigation label.
\<close>

definition dead_playwright :: playwright where
  "dead_playwright =
     \<lparr>launch = Inr (), sub_goto = (\<lambda>url. Inl TimeoutError),
      sub_content = (\<lambda>url. Inl PlaywrightError), close_found = (\<lambda>url. Inr ()),
      close_end = Inr (), leave = Inr ()\<rparr>"

definition dead_page :: page where
  "dead_page =
     \<lparr>home_goto = (\<lambda>url. Inl TimeoutError), home_idle = Inl TimeoutError,
      all_links = Inl PlaywrightError,
      nav_count = (\<lambda>nav_text. Inl PlaywrightError),
      nav_hover = (\<lambda>nav_text. Inl TimeoutError),
      nav_settle = (\<lambda>nav_text. Inl PlaywrightError),
      dropdown_count = (\<lambda>nav_text career_text. Inl PlaywrightError),
      dropdown_href = (\<lambda>nav_text career_text. Inl PlaywrightError),
      footer_count = Inl PlaywrightError,
      footer_link_count = (\<lambda>career_text. Inl PlaywrightError),
      footer_link_href = (\<lambda>career_text. Inl PlaywrightError),
      page_link_count = (\<lambda>career_text. Inl PlaywrightError),
      page_link_href = (\<lambda>career_text. Inl PlaywrightError),
      direct_goto = (\<lambda>i url. Inl TimeoutError),
      direct_content = (\<lambda>i url. Inl PlaywrightError),
      search_goto = (\<lambda>url. Inl TimeoutError),
      search_idle = (\<lambda>query. Inl TimeoutError),
      results_count = (\<lambda>query. Inl PlaywrightError),
      results_text = (\<lambda>query. Inl PlaywrightError),
      results_click = (\<lambda>query. Inl TimeoutError),
      click_idle = (\<lambda>query. Inl TimeoutError),
      current_url = (\<lambda>query. []),
      result_content = (\<lambda>query. Inl PlaywrightError)\<rparr>"

definition lever_page :: page where
  "lever_page =
     dead_page\<lparr>home_goto := (\<lambda>url. Inr ()), home_idle := Inr (),
       all_links := Inr [Inr (Some ''/about''), Inr (Some ''//jobs.lever.co/acme'')]\<rparr>"

definition hover_fails_page :: page where
  "hover_fails_page =
     dead_page\<lparr>home_goto := (\<lambda>url. Inr ()), home_idle := Inr (),
       all_links := Inr [Inr (Some ''/about'')],
       nav_count := (\<lambda>nav_text. Inr 1),
       footer_count := Inr 1,
       footer_link_count := (\<lambda>career_text. Inr 1),
       footer_link_href := (\<lambda>career_text. Inr (Some ''/careers''))\<rparr>"





text \<open>
  A session in which nothing is found, an input file that lists Acme twice, and an input
  file whose first row is short: it ends after the company name, so the reader fills its
  website with \<open>None\<close>.
\<close>

definition dead_session :: session where
  "dead_session =
     \<lparr>playwright_at = (\<lambda>index. dead_playwright), page_at = (\<lambda>index. dead_page),
      clock_at = (\<lambda>index. if index = 0 then ''2025-03-02 09:00:00'' else ''2025-03-02 09:01:30'')\<rparr>"


definition short_row_input :: "csv_row list" where
  "short_row_input =
     [[''company'' \<mapsto> Text ''Acme'', ''website'' \<mapsto> PyNone],
      [''company'' \<mapsto> Text ''Globex'', ''website'' \<mapsto> Text ''https://globex.com'']]"



section \<open>Properties of the resolver\<close>

lemma startswith_iff: "startswith s p \<longleftrightarrow> (\<exists>post. s = p @ post)"
  unfolding startswith_def by (metis append_eq_conv_conj append_take_drop_id)

lemma startswith_append: "startswith s p \<Longrightarrow> startswith (s @ t) p"
  by (metis append_eq_conv_conj append.assoc startswith_def)

lemma startswith_slash_no_scheme: "startswith s ''/'' \<Longrightarrow> \<not> has_scheme_prefix s"
  by (cases s) (auto simp: startswith_def has_scheme_prefix_def)

lemma resolve_absolute: "has_scheme_prefix h \<Longrightarrow> resolve b h = h"
  using startswith_slash_no_scheme by (auto simp: resolve_def)

lemma resolve_keeps_scheme:
  "has_scheme_prefix (rstrip_slash b) \<Longrightarrow> has_scheme_prefix (resolve b h)"
  by (auto simp: resolve_def has_scheme_prefix_def intro: startswith_append)

text \<open>
  Claim C9, as stated, at the base URL that an empty website field is coerced to:
  resolving \<open>/jobs\<close> against \<open>https://\<close> gives \<open>https:/jobs\<close>, which does not begin with
  \<open>http://\<close> or \<open>https://\<close>, and resolving that again gives a different string. The
  same happens at a base URL without a scheme, which \<open>find_career_page\<close> accepts as it
  is.
\<close>

theorem resolve_idempotent_counterexample:
  "resolve ''https://'' ''/jobs'' = ''https:/jobs'' \<and>
   \<not> has_scheme_prefix (resolve ''https://'' ''/jobs'') \<and>
   resolve ''https://'' (resolve ''https://'' ''/jobs'') = ''https:/https:/jobs'' \<and>
   resolve ''https://'' (resolve ''https://'' ''/jobs'') \<noteq> resolve ''https://'' ''/jobs'' \<and>
   resolve ''acme.com'' ''jobs'' = ''acme.com/jobs'' \<and>
   \<not> has_scheme_prefix (resolve ''acme.com'' ''jobs'') \<and>
   resolve ''acme.com'' (resolve ''acme.com'' ''jobs'') = ''acme.com/acme.com/jobs''"
  by (simp add: resolve_def startswith_def rstrip_slash_def has_scheme_prefix_def)

text \<open>
  Claim C9, amended: an href that begins with \<open>http://\<close> or \<open>https://\<close> is returned
  unchanged for every base URL; and for every base URL that still begins with \<open>http://\<close> or
  \<open>https://\<close> once its trailing slashes are stripped, every resolver output begins with
  that scheme, so resolving twice is the same as resolving once, for every href.
\<close>

theorem resolve_idempotent:
  "(has_scheme_prefix h \<longrightarrow> resolve b h = h) \<and>
   (has_scheme_prefix (rstrip_slash b) \<longrightarrow>
      has_scheme_prefix (resolve b h) \<and> resolve b (resolve b h) = resolve b h)"
proof (intro conjI impI)
  assume "has_scheme_prefix h"
  then show "resolve b h = h" by (rule resolve_absolute)
next
  assume "has_scheme_prefix (rstrip_slash b)"
  then show "has_scheme_prefix (resolve b h)" by (rule resolve_keeps_scheme)
next
  assume "has_scheme_prefix (rstrip_slash b)"
  then have "has_scheme_prefix (resolve b h)" by (rule resolve_keeps_scheme)
  then show "resolve b (resolve b h) = resolve b h" by (rule resolve_absolute)
qed

theorem resolve_idempotent_witness:
  "has_scheme_prefix ''https://acme.com/careers'' \<and>
   resolve ''https://acme.com/'' ''https://acme.com/careers'' = ''https://acme.com/careers'' \<and>
   has_scheme_prefix (rstrip_slash ''https://acme.com/'') \<and>
   has_scheme_prefix (resolve ''https://acme.com/'' ''jobs'') \<and>
   resolve ''https://acme.com/'' (resolve ''https://acme.com/'' ''jobs'') =
     resolve ''https://acme.com/'' ''jobs''"
proof -
  have h1: "has_scheme_prefix ''https://acme.com/careers''"
    by (simp add: has_scheme_prefix_def startswith_def)
  have h2: "has_scheme_prefix (rstrip_slash ''https://acme.com/'')"
    by (simp add: has_scheme_prefix_def startswith_def rstrip_slash_def)
  from resolve_idempotent [of "''https://acme.com/careers''" "''https://acme.com/''"] h1
  have a: "resolve ''https://acme.com/'' ''https://acme.com/careers'' = ''https://acme.com/careers''"
    by blast
  from resolve_idempotent [of "''jobs''" "''https://acme.com/''"] h2
  have b: "has_scheme_prefix (resolve ''https://acme.com/'' ''jobs'') \<and>
    resolve ''https://acme.com/'' (resolve ''https://acme.com/'' ''jobs'') =
      resolve ''https://acme.com/'' ''jobs''"
    by blast
  from h1 h2 a b show ?thesis by blast
qed

lemma rstrip_slash_end: "rstrip_slash s = [] \<or> last (rstrip_slash s) \<noteq> CHR ''/''"
proof (cases "dropWhile (\<lambda>c. c = CHR ''/'') (rev s)")
  case Nil
  then show ?thesis by (simp add: rstrip_slash_def)
next
  case (Cons x xs)
  then have "hd (dropWhile (\<lambda>c. c = CHR ''/'') (rev s)) \<noteq> CHR ''/''"
    using hd_dropWhile [of "\<lambda>c. c = CHR ''/''" "rev s"] by simp
  then show ?thesis using Cons by (simp add: rstrip_slash_def)
qed

lemma rstrip_slash_no_trailing: "\<not> (\<exists>pre. rstrip_slash s = pre @ ''/'')"
  using rstrip_slash_end [of s] by auto

lemma contains_slash_cons:
  "contains (CHR ''/'' # t) ''//'' \<longleftrightarrow> startswith t ''/'' \<or> contains t ''//''"
  by (cases t) (auto simp: startswith_def)

lemma no_double_append:
  assumes "\<not> contains p ''//''" "\<not> contains t ''//''" "p = [] \<or> last p \<noteq> CHR ''/''"
  shows "\<not> contains (p @ t) ''//''"
  using assms
proof (induction p)
  case Nil
  then show ?case by simp
next
  case (Cons c p)
  show ?case
  proof (cases p)
    case Nil
    with Cons.prems have "c \<noteq> CHR ''/''" by simp
    then have "\<not> startswith (c # t) ''//''" by (simp add: startswith_def)
    with Nil Cons.prems show ?thesis by simp
  next
    case (Cons d q)
    from Cons.prems this have a: "\<not> startswith (c # p) ''//''" "\<not> contains p ''//''"
      "last p \<noteq> CHR ''/''" by auto
    from a(1) Cons have "\<not> startswith (c # p @ t) ''//''" by (simp add: startswith_def)
    moreover have "\<not> contains (p @ t) ''//''" using Cons.IH a Cons.prems(2) by simp
    ultimately show ?thesis by simp
  qed
qed

lemma spec_path_scheme:
  assumes "sch = ''http://'' \<or> sch = ''https://''"
  shows "spec_path (sch @ rest) = dropWhile (\<lambda>c. c \<noteq> CHR ''/'') rest"
proof -
  have "spec_scheme_host (sch @ rest) = sch @ takeWhile (\<lambda>c. c \<noteq> CHR ''/'') rest"
    using assms by (auto simp: spec_scheme_host_def startswith_def)
  then show ?thesis by (simp add: spec_path_def dropWhile_eq_drop)
qed

lemma dropWhile_append_slash:
  "dropWhile (\<lambda>c. c \<noteq> CHR ''/'') (rest @ CHR ''/'' # t) =
     dropWhile (\<lambda>c. c \<noteq> CHR ''/'') rest @ CHR ''/'' # t"
  by (induction rest) auto

lemma join_no_double_slash:
  assumes s: "has_scheme_prefix s" "s = [] \<or> last s \<noteq> CHR ''/''"
    and nd: "\<not> spec_double_slash s" "\<not> contains (CHR ''/'' # t) ''//''"
  shows "\<not> spec_double_slash (s @ CHR ''/'' # t)"
proof -
  from s(1) obtain sch rest where sr: "s = sch @ rest" "sch = ''http://'' \<or> sch = ''https://''"
    unfolding has_scheme_prefix_def startswith_iff by blast
  let ?p = "dropWhile (\<lambda>c. c \<noteq> CHR ''/'') rest"
  have p: "spec_path s = ?p" using sr spec_path_scheme by simp
  have "spec_path (s @ CHR ''/'' # t) = ?p @ CHR ''/'' # t"
    using spec_path_scheme [OF sr(2), of "rest @ CHR ''/'' # t"] sr(1)
    by (simp add: dropWhile_append_slash)
  moreover have "?p = [] \<or> last ?p \<noteq> CHR ''/''"
  proof (cases "?p = []")
    case True
    then show ?thesis by simp
  next
    case False
    have "rest = takeWhile (\<lambda>c. c \<noteq> CHR ''/'') rest @ ?p" by simp
    then have "last rest = last ?p" using False by (metis last_appendR)
    moreover have "rest \<noteq> []" using False by auto
    then have "last s = last rest" using sr(1) by simp
    moreover have "s \<noteq> []" using sr by auto
    ultimately show ?thesis using s(2) by auto
  qed
  moreover have "\<not> contains ?p ''//''" using nd(1) p by (simp add: spec_double_slash_def)
  ultimately show ?thesis
    using no_double_append [of ?p "CHR ''/'' # t"] nd(2) by (simp add: spec_double_slash_def)
qed

lemma resolve_suffix: "\<exists>pre. resolve b h = pre @ h"
proof -
  have "resolve b h = rstrip_slash b @ h \<or> resolve b h = (rstrip_slash b @ ''/'') @ h \<or>
    resolve b h = [] @ h"
    by (simp add: resolve_def)
  then show ?thesis by blast
qed

text \<open>
  Claim C4, as stated, fails in three of its parts. The resolver prepends the whole base
  URL, path included, not its scheme and host; an href with a scheme other than
  \<open>http://\<close> or \<open>https://\<close> is not returned unchanged but joined to the base as a
  relative path; and an href that begins with two slashes yields a doubled slash in the
  path of the result.
\<close>

theorem resolve_contract_counterexample:
  "resolve ''https://acme.com/en/'' ''/careers'' = ''https://acme.com/en/careers'' \<and>
   spec_scheme_host ''https://acme.com/en/'' @ ''/careers'' = ''https://acme.com/careers'' \<and>
   spec_has_scheme ''mailto:jobs@acme.com'' \<and>
   resolve ''https://acme.com'' ''mailto:jobs@acme.com'' =
     ''https://acme.com/mailto:jobs@acme.com'' \<and>
   resolve ''https://acme.com'' ''//cdn.acme.com/careers'' =
     ''https://acme.com//cdn.acme.com/careers'' \<and>
   spec_double_slash (resolve ''https://acme.com'' ''//cdn.acme.com/careers'')"
  by code_simp

text \<open>
  Claim C4, amended: for every base URL and href, if the href starts with a slash the
  result is the base URL, all trailing slashes stripped, followed by the href; if the
  href begins with \<open>http://\<close> or \<open>https://\<close> it is returned unchanged; otherwise the
  result is the stripped base URL, one slash and the href. In every case the href is kept
  whole at the end of the result and the stripped base URL does not end in a slash; and
  when the stripped base URL begins with \<open>http://\<close> or \<open>https://\<close> and has no doubled
  slash in its path, and the href is not absolute and contains no doubled slash, the
  result has no doubled slash in its path.
\<close>

theorem resolve_contract:
  "(startswith href ''/'' \<longrightarrow> resolve base_url href = rstrip_slash base_url @ href) \<and>
   (has_scheme_prefix href \<longrightarrow> resolve base_url href = href) \<and>
   (\<not> startswith href ''/'' \<and> \<not> has_scheme_prefix href \<longrightarrow>
      resolve base_url href = rstrip_slash base_url @ ''/'' @ href) \<and>
   (\<exists>pre. resolve base_url href = pre @ href) \<and>
   \<not> (\<exists>pre. rstrip_slash base_url = pre @ ''/'') \<and>
   (has_scheme_prefix (rstrip_slash base_url) \<and> \<not> spec_double_slash (rstrip_slash base_url) \<and>
    \<not> has_scheme_prefix href \<and> \<not> contains href ''//'' \<longrightarrow>
      \<not> spec_double_slash (resolve base_url href))"
proof (intro conjI impI)
  show "resolve base_url href = rstrip_slash base_url @ href" if "startswith href ''/''"
    using that by (simp add: resolve_def)
  show "resolve base_url href = href" if "has_scheme_prefix href"
    using that by (rule resolve_absolute)
  show "resolve base_url href = rstrip_slash base_url @ ''/'' @ href"
    if "\<not> startswith href ''/'' \<and> \<not> has_scheme_prefix href"
    using that by (simp add: resolve_def)
  show "\<exists>pre. resolve base_url href = pre @ href" by (rule resolve_suffix)
  show "\<not> (\<exists>pre. rstrip_slash base_url = pre @ ''/'')" by (rule rstrip_slash_no_trailing)
  show "\<not> spec_double_slash (resolve base_url href)"
    if h: "has_scheme_prefix (rstrip_slash base_url) \<and>
      \<not> spec_double_slash (rstrip_slash base_url) \<and>
      \<not> has_scheme_prefix href \<and> \<not> contains href ''//''"
  proof (cases "startswith href ''/''")
    case True
    then obtain t where t: "href = CHR ''/'' # t" unfolding startswith_iff by auto
    then show ?thesis
      using join_no_double_slash [of "rstrip_slash base_url" t] h rstrip_slash_end [of base_url] True
      by (simp add: resolve_def)
  next
    case False
    then have "\<not> contains (CHR ''/'' # href) ''//''"
      using h contains_slash_cons by blast
    then show ?thesis
      using join_no_double_slash [of "rstrip_slash base_url" href] h
        rstrip_slash_end [of base_url] False
      by (simp add: resolve_def)
  qed
qed

theorem resolve_contract_witness:
  "startswith ''/careers'' ''/'' \<and>
   resolve ''https://acme.com/en/'' ''/careers'' = ''https://acme.com/en/careers'' \<and>
   has_scheme_prefix ''https://jobs.acme.com/open'' \<and>
   resolve ''https://acme.com/en/'' ''https://jobs.acme.com/open'' = ''https://jobs.acme.com/open'' \<and>
   \<not> startswith ''careers'' ''/'' \<and> \<not> has_scheme_prefix ''careers'' \<and>
   resolve ''https://acme.com/en/'' ''careers'' = ''https://acme.com/en/careers'' \<and>
   has_scheme_prefix (rstrip_slash ''https://acme.com/en/'') \<and>
   \<not> spec_double_slash (rstrip_slash ''https://acme.com/en/'') \<and>
   \<not> contains ''careers'' ''//'' \<and>
   \<not> spec_double_slash (resolve ''https://acme.com/en/'' ''careers'')"
proof -
  have h1: "startswith ''/careers'' ''/''" by code_simp
  have h2: "has_scheme_prefix ''https://jobs.acme.com/open''" by code_simp
  have h3: "\<not> startswith ''careers'' ''/'' \<and> \<not> has_scheme_prefix ''careers''" by code_simp
  have h4: "has_scheme_prefix (rstrip_slash ''https://acme.com/en/'') \<and>
    \<not> spec_double_slash (rstrip_slash ''https://acme.com/en/'') \<and>
    \<not> has_scheme_prefix ''careers'' \<and> \<not> contains ''careers'' ''//''" by code_simp
  have r: "rstrip_slash ''https://acme.com/en/'' = ''https://acme.com/en''" by code_simp
  have a: "resolve ''https://acme.com/en/'' ''/careers'' = ''https://acme.com/en/careers''"
    using resolve_contract [of "''/careers''" "''https://acme.com/en/''"] h1 r by simp
  have b: "resolve ''https://acme.com/en/'' ''https://jobs.acme.com/open'' =
      ''https://jobs.acme.com/open''"
    using resolve_contract [of "''https://jobs.acme.com/open''" "''https://acme.com/en/''"] h2
    by blast
  have c: "resolve ''https://acme.com/en/'' ''careers'' = ''https://acme.com/en/careers''"
    using resolve_contract [of "''careers''" "''https://acme.com/en/''"] h3 r by simp
  have d: "\<not> spec_double_slash (resolve ''https://acme.com/en/'' ''careers'')"
    using resolve_contract [of "''careers''" "''https://acme.com/en/''"] h4 by blast
  from h1 h2 h3 h4 a b c d show ?thesis by blast
qed

section \<open>Properties of the link classifier\<close>

lemma first_some_Some_iff:
  "first_some f xs = Some y \<longleftrightarrow>
     (\<exists>i < length xs. f (xs ! i) = Some y \<and> (\<forall>j < i. f (xs ! j) = None))"
proof (induction xs)
  case Nil
  then show ?case by simp
next
  case (Cons x xs)
  show ?case
  proof (cases "f x")
    case None
    have "(\<exists>i < length (x # xs). f ((x # xs) ! i) = Some y \<and> (\<forall>j < i. f ((x # xs) ! j) = None))
       \<longleftrightarrow> (\<exists>i < length xs. f (xs ! i) = Some y \<and> (\<forall>j < i. f (xs ! j) = None))"
      (is "?L \<longleftrightarrow> ?R")
    proof
      assume ?L
      then obtain i where i: "i < length (x # xs)" "f ((x # xs) ! i) = Some y"
        "\<forall>j < i. f ((x # xs) ! j) = None" by blast
      with None obtain k where k: "i = Suc k" by (cases i) auto
      have "\<forall>j < k. f (xs ! j) = None"
      proof (intro allI impI)
        fix j assume "j < k"
        then have "Suc j < i" using k by simp
        then have "f ((x # xs) ! Suc j) = None" using i(3) by blast
        then show "f (xs ! j) = None" by simp
      qed
      with i k show ?R by auto
    next
      assume ?R
      then obtain i where i: "i < length xs" "f (xs ! i) = Some y" "\<forall>j < i. f (xs ! j) = None"
        by blast
      have "\<forall>j < Suc i. f ((x # xs) ! j) = None"
      proof (intro allI impI)
        fix j assume "j < Suc i"
        then show "f ((x # xs) ! j) = None" using None i(3) by (cases j) auto
      qed
      moreover have "Suc i < length (x # xs)" "f ((x # xs) ! Suc i) = Some y" using i by auto
      ultimately show ?L by blast
    qed
    with None Cons.IH show ?thesis by simp
  next
    case (Some z)
    have "(\<exists>i < length (x # xs). f ((x # xs) ! i) = Some y \<and> (\<forall>j < i. f ((x # xs) ! j) = None))
       \<longleftrightarrow> z = y" (is "?L \<longleftrightarrow> _")
    proof
      assume ?L
      then obtain i where i: "i < length (x # xs)" "f ((x # xs) ! i) = Some y"
        "\<forall>j < i. f ((x # xs) ! j) = None" by blast
      have "i = 0"
      proof (rule ccontr)
        assume "i \<noteq> 0"
        then have "f ((x # xs) ! 0) = None" using i(3) by blast
        with Some show False by simp
      qed
      with i Some show "z = y" by simp
    next
      assume "z = y"
      with Some have "0 < length (x # xs) \<and> f ((x # xs) ! 0) = Some y \<and> (\<forall>j < 0. f ((x # xs) ! j) = None)"
        by simp
      then show ?L by blast
    qed
    with Some show ?thesis by simp
  qed
qed

lemma first_some_None_iff: "first_some f xs = None \<longleftrightarrow> (\<forall>x \<in> set xs. f x = None)"
  by (induction xs) (auto split: option.splits)

lemma lever_matches: "third_party_match ''https://jobs.lever.co/acme'' = Some [''acme'']"
  by code_simp

lemma lever_second_template:
  "re_search (THIRD_PARTY_PATTERNS ! 1) ''https://jobs.lever.co/acme'' = Some [''jobs'']"
  by code_simp

lemma acme_no_match: "third_party_match ''https://acme.com/careers'' = None"
  by code_simp

text \<open>
  Claim C7: the classifier stops at the first template, in the declared order, that
  matches the URL, and its result is that template's match; it has no match exactly when
  no template matches. The URL \<open>https://jobs.lever.co/acme\<close> matches with the captured
  slug \<open>acme\<close>, the capture of the first template, although the second template
  matches it too, with another capture; the URL \<open>https://acme.com/careers\<close> matches no
  template.
\<close>

theorem third_party_first_match:
  "(third_party_match href = Some groups \<longleftrightarrow>
      (\<exists>i < length THIRD_PARTY_PATTERNS.
         re_search (THIRD_PARTY_PATTERNS ! i) href = Some groups \<and>
         (\<forall>j < i. re_search (THIRD_PARTY_PATTERNS ! j) href = None))) \<and>
   (third_party_match href = None \<longleftrightarrow>
      (\<forall>pattern \<in> set THIRD_PARTY_PATTERNS. re_search pattern href = None)) \<and>
   third_party_match ''https://jobs.lever.co/acme'' = Some [''acme''] \<and>
   re_search (THIRD_PARTY_PATTERNS ! 1) ''https://jobs.lever.co/acme'' = Some [''jobs''] \<and>
   third_party_match ''https://acme.com/careers'' = None"
  unfolding third_party_match_def [symmetric]
  using first_some_Some_iff [of "\<lambda>pattern. re_search pattern href" THIRD_PARTY_PATTERNS groups]
    first_some_None_iff [of "\<lambda>pattern. re_search pattern href" THIRD_PARTY_PATTERNS]
    lever_matches lever_second_template acme_no_match
  by (simp add: third_party_match_def)

theorem third_party_first_match_witness:
  "\<exists>i < length THIRD_PARTY_PATTERNS.
     re_search (THIRD_PARTY_PATTERNS ! i) ''https://jobs.lever.co/acme'' = Some [''acme''] \<and>
     (\<forall>j < i. re_search (THIRD_PARTY_PATTERNS ! j) ''https://jobs.lever.co/acme'' = None)"
  using third_party_first_match [of "''https://jobs.lever.co/acme''" "[''acme'']"] by blast

section \<open>Properties of the job-parsing tool\<close>

lemma lower_char_idem: "lower_char (lower_char c) = lower_char c"
  by (auto simp: lower_char_def less_eq_char_def)

lemma lower_idem: "lower (lower s) = lower s"
  by (simp add: lower_def lower_char_idem)

lemma contains_iff: "contains s k \<longleftrightarrow> (\<exists>pre post. s = pre @ k @ post)"
proof (induction s)
  case Nil
  then show ?case by auto
next
  case (Cons c cs)
  show ?case
  proof
    assume "contains (c # cs) k"
    then consider "startswith (c # cs) k" | "contains cs k" by auto
    then show "\<exists>pre post. c # cs = pre @ k @ post"
    proof cases
      case 1
      then obtain post where "c # cs = k @ post" using startswith_iff by blast
      then have "c # cs = [] @ k @ post" by simp
      then show ?thesis by blast
    next
      case 2
      then obtain pre post where "cs = pre @ k @ post" using Cons.IH by blast
      then have "c # cs = (c # pre) @ k @ post" by simp
      then show ?thesis by blast
    qed
  next
    assume "\<exists>pre post. c # cs = pre @ k @ post"
    then obtain pre post where e: "c # cs = pre @ k @ post" by blast
    show "contains (c # cs) k"
    proof (cases pre)
      case Nil
      then have "startswith (c # cs) k" using e startswith_iff by auto
      then show ?thesis by simp
    next
      case (Cons p ps)
      then have "cs = ps @ k @ post" using e by simp
      then show ?thesis using Cons.IH by auto
    qed
  qed
qed

lemma get_lower_text: "text_or_absent job k \<Longrightarrow> get_lower job k = Inr (lower (get_text job k))"
  by (auto simp: text_or_absent_def get_lower_def get_text_def split: option.splits json.splits)

lemma get_lower_raises: "\<not> text_or_absent job k \<Longrightarrow> get_lower job k = Inl AttributeError"
  by (auto simp: text_or_absent_def get_lower_def split: option.splits json.splits)

lemma get_lower_error: "get_lower job k = Inl e \<Longrightarrow> e = AttributeError"
  by (auto simp: get_lower_def split: option.splits json.splits)

text \<open>
  On jobs whose title, description and location are strings or absent, the filter
  returns, in their order, exactly the jobs for which all three conditions hold.
\<close>

lemma filter_jobs_on_text:
  "list_all all_text all_jobs \<Longrightarrow>
   filter_jobs all_jobs acc = Inr (acc @ filter meets_all_three all_jobs)"
proof (induction all_jobs arbitrary: acc)
  case Nil
  then show ?case by simp
next
  case (Cons job all_jobs)
  from Cons.prems have this_job: "all_text job" and rest: "list_all all_text all_jobs"
    by simp_all
  from this_job have t: "text_or_absent job ''title''" "text_or_absent job ''description''"
    "text_or_absent job ''location''"
    by (simp_all add: all_text_def)
  show ?case
    using Cons.IH [OF rest]
    by (simp add: get_lower_text [OF t(1)] get_lower_text [OF t(2)] get_lower_text [OF t(3)]
        meets_all_three_def)
qed

text \<open>As soon as one field of one job is not a string, the filter raises.\<close>

lemma filter_jobs_raises:
  "\<not> list_all all_text all_jobs \<Longrightarrow> filter_jobs all_jobs acc = Inl AttributeError"
proof (induction all_jobs arbitrary: acc)
  case Nil
  then show ?case by simp
next
  case (Cons job all_jobs)
  show ?case
  proof (cases "all_text job")
    case True
    then have t: "text_or_absent job ''title''" "text_or_absent job ''description''"
      "text_or_absent job ''location''"
      by (simp_all add: all_text_def)
    from True Cons.prems have "\<not> list_all all_text all_jobs" by simp
    then show ?thesis
      using Cons.IH
      by (simp add: get_lower_text [OF t(1)] get_lower_text [OF t(2)] get_lower_text [OF t(3)])
  next
    case False
    then consider "\<not> text_or_absent job ''title''"
      | "text_or_absent job ''title''" "\<not> text_or_absent job ''description''"
      | "text_or_absent job ''title''" "text_or_absent job ''description''"
        "\<not> text_or_absent job ''location''"
      by (auto simp: all_text_def)
    then show ?thesis
    proof cases
      case 1
      then show ?thesis by (simp add: get_lower_raises)
    next
      case 2
      then show ?thesis by (simp add: get_lower_raises get_lower_text)
    next
      case 3
      then show ?thesis by (simp add: get_lower_raises get_lower_text)
    qed
  qed
qed

lemma demo_jobs_text:
  "all_text berlin_job \<and> all_text bengaluru_job \<and> \<not> all_text null_description_job"
  unfolding berlin_job_def bengaluru_job_def null_description_job_def by code_simp

lemma demo_jobs_conditions:
  "\<not> meets_all_three berlin_job \<and> meets_all_three bengaluru_job \<and>
   role_match (lower (get_text berlin_job ''title'')) \<and>
   seniority_match (lower (get_text berlin_job ''title''))"
  unfolding berlin_job_def bengaluru_job_def by code_simp

text \<open>
  The conjunction at work: of two jobs with the same title, the one in Berlin meets the
  role and the seniority conditions and is dropped, the one in Bengaluru is kept.
\<close>

lemma bengaluru_job_kept:
  "filter_jobs [berlin_job, bengaluru_job] [] = Inr [bengaluru_job]"
proof -
  have "list_all all_text [berlin_job, bengaluru_job]"
    using demo_jobs_text by simp
  from filter_jobs_on_text [OF this, of "[]"] show ?thesis
    using demo_jobs_conditions by simp
qed

lemma null_description_job_raises:
  "filter_jobs [bengaluru_job, null_description_job] [] = Inl AttributeError"
proof -
  have "\<not> list_all all_text [bengaluru_job, null_description_job]"
    using demo_jobs_text by simp
  then show ?thesis by (rule filter_jobs_raises)
qed

text \<open>
  Claim C8 at a job whose description is \<open>null\<close>: its title contains a role keyword and
  a seniority keyword and its location contains a location keyword, so all three
  conditions of the claim hold of it, and the filter does not retain it: the \<open>lower\<close>
  call on its description raises, and with it the job before it, which the filter alone
  would keep, is lost too.
\<close>

theorem filter_jobs_null_field:
  "role_match (lower ''Lead Product Manager'') \<and>
   seniority_match (lower ''Lead Product Manager'') \<and>
   list_ex (\<lambda>keyword. contains (lower ''Remote'') keyword) location_keywords \<and>
   null_description_job ''title'' = Some (JString ''Lead Product Manager'') \<and>
   null_description_job ''location'' = Some (JString ''Remote'') \<and>
   null_description_job ''description'' = Some JNull \<and>
   filter_jobs [null_description_job] [] = Inl AttributeError \<and>
   filter_jobs [bengaluru_job, null_description_job] [] = Inl AttributeError"
proof -
  have conditions: "role_match (lower ''Lead Product Manager'') \<and>
     seniority_match (lower ''Lead Product Manager'') \<and>
     list_ex (\<lambda>keyword. contains (lower ''Remote'') keyword) location_keywords"
    by code_simp
  have fields: "null_description_job ''title'' = Some (JString ''Lead Product Manager'') \<and>
     null_description_job ''location'' = Some (JString ''Remote'') \<and>
     null_description_job ''description'' = Some JNull"
    by (simp add: null_description_job_def)
  have "\<not> list_all all_text [null_description_job]"
    using demo_jobs_text by simp
  then have alone: "filter_jobs [null_description_job] [] = Inl AttributeError"
    by (rule filter_jobs_raises)
  note both = null_description_job_raises
  show ?thesis
    by (rule conjI [OF conjunct1 [OF conditions]
          conjI [OF conjunct1 [OF conjunct2 [OF conditions]]
          conjI [OF conjunct2 [OF conjunct2 [OF conditions]]
          conjI [OF conjunct1 [OF fields]
          conjI [OF conjunct1 [OF conjunct2 [OF fields]]
          conjI [OF conjunct2 [OF conjunct2 [OF fields]]
          conjI [OF alone both]]]]]]])
qed

lemma load_rows_acc:
  "list_all (\<lambda>row. row \<noteq> []) df \<Longrightarrow>
   load_rows df acc =
     Inr (acc @ concat (map (\<lambda>row. case last row of
                Str u \<Rightarrow> if has_scheme_prefix u then [\<lparr>board_company = hd row, board_url = u\<rparr>] else []
              | NaN \<Rightarrow> [] | Number n \<Rightarrow> []) df))"
proof (induction df arbitrary: acc)
  case Nil
  then show ?case by simp
next
  case (Cons row df)
  then obtain c cs where row: "row = c # cs" by (cases row) auto
  from Cons.prems have rest: "list_all (\<lambda>row. row \<noteq> []) df" by simp
  show ?case
  proof (cases "last row")
    case (Str u)
    then show ?thesis using row Cons.IH [OF rest] by (simp add: has_scheme_prefix_def)
  next
    case NaN
    then show ?thesis using row Cons.IH [OF rest] by simp
  next
    case (Number n)
    then show ?thesis using row Cons.IH [OF rest] by simp
  qed
qed

lemma load_rows_skip_empty:
  "list_all (\<lambda>row. row \<noteq> []) df \<Longrightarrow>
   load_rows (filter (\<lambda>row. last row \<noteq> NaN \<and> last row \<noteq> Str []) df) acc = load_rows df acc"
proof (induction df arbitrary: acc)
  case Nil
  then show ?case by simp
next
  case (Cons row df)
  then obtain c cs where row: "row = c # cs" by (cases row) auto
  from Cons.prems have rest: "list_all (\<lambda>row. row \<noteq> []) df" by simp
  show ?case using row Cons.IH [OF rest]
    by (cases "last row") (auto simp: startswith_def)
qed

text \<open>
  Claim C10: on a frame whose rows have at least one column, the loader returns, in row
  order, one entry for each row whose last cell is a string that begins with \<open>http://\<close>
  or \<open>https://\<close>, with the first cell as the company and that string as the URL, and
  nothing for any other row; so every URL in the list has one of the two prefixes, and
  the rows whose last cell is empty (the \<open>nan\<close> of an empty field, or an empty string)
  can be removed from the frame without changing the result.
\<close>

theorem load_job_boards_urls:
  assumes "list_all (\<lambda>row. row \<noteq> []) df"
  shows "\<exists>job_boards.
     load_job_boards df = Inr job_boards \<and>
     job_boards =
       concat (map (\<lambda>row. case last row of
                  Str u \<Rightarrow>
                    if has_scheme_prefix u then [\<lparr>board_company = hd row, board_url = u\<rparr>]
                    else []
                | NaN \<Rightarrow> []
                | Number n \<Rightarrow> []) df) \<and>
     list_all (\<lambda>b. has_scheme_prefix (board_url b)) job_boards \<and>
     load_job_boards (filter (\<lambda>row. last row \<noteq> NaN \<and> last row \<noteq> Str []) df) =
       Inr job_boards"
proof -
  let ?entry = "\<lambda>row. case last row of
                  Str u \<Rightarrow>
                    if has_scheme_prefix u then [\<lparr>board_company = hd row, board_url = u\<rparr>]
                    else []
                | NaN \<Rightarrow> []
                | Number n \<Rightarrow> []"
  have a: "load_job_boards df = Inr (concat (map ?entry df))"
    using load_rows_acc [OF assms, of "[]"] by (simp add: load_job_boards_def)
  have "\<forall>b \<in> set (?entry row). has_scheme_prefix (board_url b)" for row
    by (cases "last row") auto
  then have b: "list_all (\<lambda>b. has_scheme_prefix (board_url b)) (concat (map ?entry df))"
    by (auto simp: list_all_iff)
  have c: "load_job_boards (filter (\<lambda>row. last row \<noteq> NaN \<and> last row \<noteq> Str []) df) =
      Inr (concat (map ?entry df))"
    using load_rows_skip_empty [OF assms, of "[]"] a by (simp add: load_job_boards_def)
  from a b c show ?thesis by blast
qed

theorem load_job_boards_urls_witness:
  "list_all (\<lambda>row. row \<noteq> []) boards_frame \<and>
   load_job_boards boards_frame =
     Inr [\<lparr>board_company = Str ''Acme'', board_url = ''https://jobs.lever.co/acme''\<rparr>]"
proof -
  have h: "list_all (\<lambda>row. row \<noteq> []) boards_frame"
    by (simp add: boards_frame_def)
  from load_job_boards_urls [OF h] obtain job_boards where
    r: "load_job_boards boards_frame = Inr job_boards" and
    e: "job_boards =
       concat (map (\<lambda>row. case last row of
                  Str u \<Rightarrow>
                    if has_scheme_prefix u then [\<lparr>board_company = hd row, board_url = u\<rparr>]
                    else []
                | NaN \<Rightarrow> []
                | Number n \<Rightarrow> []) boards_frame)"
    by blast
  have "job_boards = [\<lparr>board_company = Str ''Acme'', board_url = ''https://jobs.lever.co/acme''\<rparr>]"
    unfolding e by (simp add: boards_frame_def has_scheme_prefix_def startswith_def)
  with h r show ?thesis by simp
qed

section \<open>Properties of the discovery chain\<close>

lemma homepage_strategies_cases:
  assumes "homepage_strategies pg b = (entered, h)"
  shows "(entered = [Strategy1] \<and> h = None \<and> (\<exists>e. strategy1 pg b = Inl e)) \<or>
     (entered = [Strategy1] \<and> (\<exists>x. h = Some x \<and> strategy1 pg b = Inr (Some x))) \<or>
     (entered = [Strategy1, Strategy2] \<and> h = None \<and> strategy1 pg b = Inr None \<and>
        (\<exists>e. strategy2 pg b = Inl e)) \<or>
     (entered = [Strategy1, Strategy2] \<and> strategy1 pg b = Inr None \<and>
        (\<exists>x. h = Some x \<and> strategy2 pg b = Inr (Some x))) \<or>
     (entered = [Strategy1, Strategy2, Strategy3] \<and> h = None \<and> strategy1 pg b = Inr None \<and>
        strategy2 pg b = Inr None \<and> (\<exists>e. strategy3 pg b = Inl e)) \<or>
     (entered = [Strategy1, Strategy2, Strategy3] \<and> strategy1 pg b = Inr None \<and>
        strategy2 pg b = Inr None \<and> strategy3 pg b = Inr h)"
  using assms unfolding homepage_strategies_def
  by (auto split: sum.splits option.splits)

lemma find_career_page_cases:
  assumes "find_career_page pw pg b n = (invoked, outcome)"
  shows "(\<exists>e. check_subdomain_urls pw b = Inl e \<and> invoked = [Strategy0] \<and> outcome = Inl e) \<or>
     (\<exists>v. check_subdomain_urls pw b = Inr v \<and> truthy v \<and> invoked = [Strategy0] \<and>
        outcome = Inr v) \<or>
     (\<exists>v entered h. check_subdomain_urls pw b = Inr v \<and> \<not> truthy v \<and>
        homepage_strategies pg b = (entered, h) \<and>
        ((\<exists>x. h = Some x \<and> invoked = Strategy0 # entered \<and> outcome = Inr (Some x)) \<or>
         (h = None \<and> (\<exists>u. strategy4 pg b = Some u \<and>
            invoked = Strategy0 # entered @ [Strategy4] \<and> outcome = Inr (Some u))) \<or>
         (h = None \<and> strategy4 pg b = None \<and>
            invoked = Strategy0 # entered @ [Strategy4, Strategy5] \<and>
            outcome = Inr (strategy5 pg n))))"
proof (cases "check_subdomain_urls pw b")
  case (Inl e)
  with assms have "invoked = [Strategy0]" "outcome = Inl e"
    by (auto simp: find_career_page_def)
  with Inl show ?thesis by blast
next
  case (Inr v)
  show ?thesis
  proof (cases "truthy v")
    case True
    with Inr assms have "invoked = [Strategy0]" "outcome = Inr v"
      by (auto simp: find_career_page_def)
    with Inr True show ?thesis by blast
  next
    case False
    obtain entered h where hp: "homepage_strategies pg b = (entered, h)"
      by (cases "homepage_strategies pg b")
    show ?thesis
    proof (cases h)
      case (Some x)
      with Inr False hp assms have "invoked = Strategy0 # entered" "outcome = Inr (Some x)"
        by (auto simp: find_career_page_def)
      with Inr False hp Some show ?thesis by blast
    next
      case None
      show ?thesis
      proof (cases "strategy4 pg b")
        case (Some u)
        with Inr False hp None assms
        have "invoked = Strategy0 # entered @ [Strategy4]" "outcome = Inr (Some u)"
          by (auto simp: find_career_page_def)
        with Inr False hp None Some show ?thesis by blast
      next
        case s4: None
        with Inr False hp None assms
        have "invoked = Strategy0 # entered @ [Strategy4, Strategy5]"
          "outcome = Inr (strategy5 pg n)"
          by (auto simp: find_career_page_def)
        with Inr False hp None s4 show ?thesis by blast
      qed
    qed
  qed
qed

lemma try_subdomains_mem: "try_subdomains pw urls = Some u \<Longrightarrow> u \<in> set urls"
  by (induction urls) (auto split: sum.splits if_splits)

lemma subdomain_urls_https: "u \<in> set (subdomain_urls d) \<Longrightarrow> startswith u ''https://''"
  by (auto simp: subdomain_urls_def Let_def startswith_def)

lemma check_subdomain_urls_https:
  assumes "check_subdomain_urls pw b = Inr (Some u)"
  shows "startswith u ''https://''"
proof -
  from assms obtain d where "try_subdomains pw (subdomain_urls d) = Some u"
    unfolding check_subdomain_urls_def and_then_def
    by (auto split: option.splits sum.splits)
  then show ?thesis using try_subdomains_mem subdomain_urls_https by blast
qed





lemma check_subdomain_urls_raises:
  assumes "check_subdomain_urls pw b = Inl e"
  shows "launch pw = Inl e \<or> close_end pw = Inl e \<or> leave pw = Inl e"
  using assms unfolding check_subdomain_urls_def and_then_def
  by (auto split: option.splits sum.splits)

lemma try_subdomains_find:
  "try_subdomains pw urls = List.find (\<lambda>url. probe_subdomain pw url = Inr True) urls"
  by (induction urls) (auto split: sum.splits)

lemma third_party_link_first:
  "third_party_link links =
     first_some (\<lambda>link. case link of
          Inl e \<Rightarrow> None
        | Inr href \<Rightarrow> if truthy href \<and> third_party_match (the href) \<noteq> None then href else None)
       links"
proof (induction links)
  case Nil
  then show ?case by simp
next
  case (Cons link links)
  show ?case
  proof (cases link)
    case (Inl e)
    with Cons.IH show ?thesis by (simp del: not_None_eq)
  next
    case (Inr href)
    show ?thesis
    proof (cases "truthy href \<and> third_party_match (the href) \<noteq> None")
      case True
      then obtain h where "href = Some h" by (cases href) (auto simp: truthy_def)
      with True Inr show ?thesis by (simp del: not_None_eq)
    next
      case False
      with Inr Cons.IH show ?thesis by (auto simp del: not_None_eq)
    qed
  qed
qed

lemma try_patterns_find:
  "try_patterns pg b candidates =
     map_option (\<lambda>(i, pattern). rstrip_slash b @ pattern)
       (List.find (\<lambda>(i, pattern). probe_direct pg i (rstrip_slash b @ pattern) = Inr True)
          candidates)"
  by (induction candidates) (auto simp: Let_def split: sum.splits)

lemma try_queries_first:
  "try_queries pg queries =
     first_some (\<lambda>query. case search_one pg query of
          Inl e \<Rightarrow> None | Inr found \<Rightarrow> found) queries"
  by (induction queries) (auto split: sum.splits option.splits)

lemma homepage_error:
  assumes "homepage_strategies pg b = (entered, h)" "s \<in> set entered"
    "attempt pw pg b n s = Inl e"
  shows "h = None \<and> (\<forall>t \<in> set entered. rank t \<le> rank s)"
  using homepage_strategies_cases [OF assms(1)] assms(2,3)
  by (elim disjE conjE exE) auto

lemma homepage_entered:
  assumes "homepage_strategies pg b = (entered, h)"
  shows "\<forall>t \<in> set entered. rank t \<in> {1, 2, 3}"
  using homepage_strategies_cases [OF assms] by (elim disjE conjE exE) auto

lemma homepage_error_skips:
  assumes run: "find_career_page pw pg b n = (invoked, outcome)"
    and s: "s \<in> set invoked" "rank s \<in> {1, 2, 3}" "attempt pw pg b n s = Inl e"
  shows "Strategy4 \<in> set invoked \<and> (\<forall>t. rank s < rank t \<and> rank t < 4 \<longrightarrow> t \<notin> set invoked)"
proof -
  from s(2) have s_not: "s \<noteq> Strategy0" "s \<noteq> Strategy4" "s \<noteq> Strategy5" by auto
  from find_career_page_cases [OF run] s(1) s_not obtain entered h where
    hp: "homepage_strategies pg b = (entered, h)" and
    inv: "(h \<noteq> None \<and> invoked = Strategy0 # entered) \<or>
      (h = None \<and> invoked = Strategy0 # entered @ [Strategy4]) \<or>
      (h = None \<and> invoked = Strategy0 # entered @ [Strategy4, Strategy5])"
    by auto
  from inv s(1) s_not have s_in: "s \<in> set entered" by auto
  from homepage_error [OF hp s_in s(3)] have h: "h = None"
    and le: "\<forall>t \<in> set entered. rank t \<le> rank s" by auto
  from h inv have shape: "invoked = Strategy0 # entered @ [Strategy4] \<or>
    invoked = Strategy0 # entered @ [Strategy4, Strategy5]" by auto
  then have four: "Strategy4 \<in> set invoked" by auto
  have "t \<notin> set invoked" if t: "rank s < rank t \<and> rank t < 4" for t
  proof
    assume "t \<in> set invoked"
    moreover from t s(2) have "t \<noteq> Strategy0" "t \<noteq> Strategy4" "t \<noteq> Strategy5" by auto
    ultimately have "t \<in> set entered" using shape by auto
    with le t show False by auto
  qed
  with four show ?thesis by blast
qed

lemma homepage_error_entered:
  assumes "homepage_strategies pg b = (entered, h)" "s \<in> set entered"
    "attempt pw pg b n s = Inl e"
  shows "entered = filter (\<lambda>t. rank t \<le> rank s) [Strategy1, Strategy2, Strategy3]"
  using homepage_strategies_cases [OF assms(1)] assms(2,3)
  by (elim disjE conjE exE) auto

lemma homepage_error_continues:
  assumes run: "find_career_page pw pg b n = (invoked, outcome)"
    and s: "s \<in> set invoked" "rank s \<in> {1, 2, 3}" "attempt pw pg b n s = Inl e"
  shows "(\<forall>u. strategy4 pg b = Some u \<longrightarrow>
        invoked = Strategy0 # filter (\<lambda>t. rank t \<le> rank s) [Strategy1, Strategy2, Strategy3] @
          [Strategy4] \<and>
        outcome = Inr (Some u)) \<and>
     (strategy4 pg b = None \<longrightarrow>
        invoked = Strategy0 # filter (\<lambda>t. rank t \<le> rank s) [Strategy1, Strategy2, Strategy3] @
          [Strategy4, Strategy5] \<and>
        outcome = Inr (strategy5 pg n))"
proof -
  from s(2) have s_not: "s \<noteq> Strategy0" "s \<noteq> Strategy4" "s \<noteq> Strategy5" by auto
  from find_career_page_cases [OF run] s(1) s_not obtain entered h where
    hp: "homepage_strategies pg b = (entered, h)" and
    inv: "(h \<noteq> None \<and> invoked = Strategy0 # entered) \<or>
      (h = None \<and> (\<exists>u. strategy4 pg b = Some u \<and>
         invoked = Strategy0 # entered @ [Strategy4] \<and> outcome = Inr (Some u))) \<or>
      (h = None \<and> strategy4 pg b = None \<and>
         invoked = Strategy0 # entered @ [Strategy4, Strategy5] \<and>
         outcome = Inr (strategy5 pg n))"
    by auto
  from inv s(1) s_not have s_in: "s \<in> set entered" by auto
  from homepage_error [OF hp s_in s(3)] have h: "h = None" by simp
  from homepage_error_entered [OF hp s_in s(3)]
  have e: "entered = filter (\<lambda>t. rank t \<le> rank s) [Strategy1, Strategy2, Strategy3]" .
  from h inv have shape:
    "(\<exists>u. strategy4 pg b = Some u \<and>
         invoked = Strategy0 # entered @ [Strategy4] \<and> outcome = Inr (Some u)) \<or>
      (strategy4 pg b = None \<and>
         invoked = Strategy0 # entered @ [Strategy4, Strategy5] \<and>
         outcome = Inr (strategy5 pg n))"
    by auto
  show ?thesis
  proof (cases "strategy4 pg b")
    case None
    with shape have "invoked = Strategy0 # entered @ [Strategy4, Strategy5]"
      "outcome = Inr (strategy5 pg n)" by auto
    with None e show ?thesis by simp
  next
    case (Some u)
    with shape have "invoked = Strategy0 # entered @ [Strategy4]" "outcome = Inr (Some u)"
      by auto
    with Some e show ?thesis by simp
  qed
qed

lemma hover_fails_run:
  "find_career_page dead_playwright hover_fails_page ''https://acme.com'' ''Acme'' =
     ([Strategy0, Strategy1, Strategy4, Strategy5], Inr None)"
  unfolding dead_playwright_def hover_fails_page_def dead_page_def by code_simp

lemma hover_fails_strategies:
  "strategy1 hover_fails_page ''https://acme.com'' = Inl TimeoutError \<and>
   strategy2 hover_fails_page ''https://acme.com'' = Inr (Some ''https://acme.com/careers'') \<and>
   strategy3 hover_fails_page ''https://acme.com'' = Inl PlaywrightError"
  unfolding hover_fails_page_def dead_page_def by code_simp

text \<open>
  Claim C3, as stated, fails: on a homepage whose navigation label cannot be hovered,
  strategy 1 raises, and although the footer holds a career link that strategy 2 would
  return, neither strategy 2 nor strategy 3 is invoked.
\<close>

theorem chain_error_isolation_counterexample:
  "strategy1 hover_fails_page ''https://acme.com'' = Inl TimeoutError \<and>
   strategy2 hover_fails_page ''https://acme.com'' = Inr (Some ''https://acme.com/careers'') \<and>
   find_career_page dead_playwright hover_fails_page ''https://acme.com'' ''Acme'' =
     ([Strategy0, Strategy1, Strategy4, Strategy5], Inr None) \<and>
   Strategy2 \<notin> set (fst (find_career_page dead_playwright hover_fails_page ''https://acme.com''
      ''Acme'')) \<and>
   Strategy3 \<notin> set (fst (find_career_page dead_playwright hover_fails_page ''https://acme.com''
      ''Acme''))"
  using hover_fails_run hover_fails_strategies by simp

text \<open>
  Claim C3, amended: no navigation or DOM error leaves the chain (when the private
  browser of strategy 0 starts and shuts down, the outcome is a result). Strategies 1, 2
  and 3 share one handler: an error raised in one of them ends the homepage strategies,
  so the later ones among them are not invoked, and the chain goes on with strategy 4 and,
  when strategy 4 finds nothing, with strategy 5: the strategies invoked are strategy 0,
  the homepage strategies up to the one that raised, strategy 4 and, if it finds nothing,
  strategy 5, and the outcome is that of the last of them. An error on a candidate skips
  that candidate only in the loops of strategy 0, of the third-party links of strategy 1,
  of strategy 4 and of strategy 5: each of them yields the first candidate that succeeds,
  whatever raised before it.
\<close>

theorem chain_error_isolation:
  assumes "find_career_page pw pg base_url company_name = (invoked, outcome)"
  shows "(launch pw = Inr () \<and> close_end pw = Inr () \<and> leave pw = Inr () \<longrightarrow>
        (\<exists>found. outcome = Inr found)) \<and>
     (\<forall>s \<in> set invoked. \<forall>e.
        rank s \<in> {1, 2, 3} \<and> attempt pw pg base_url company_name s = Inl e \<longrightarrow>
          Strategy4 \<in> set invoked \<and>
          (\<forall>t. rank s < rank t \<and> rank t < 4 \<longrightarrow> t \<notin> set invoked) \<and>
          (\<forall>u. strategy4 pg base_url = Some u \<longrightarrow>
             invoked =
               Strategy0 # filter (\<lambda>t. rank t \<le> rank s) [Strategy1, Strategy2, Strategy3] @
                 [Strategy4] \<and>
             outcome = Inr (Some u)) \<and>
          (strategy4 pg base_url = None \<longrightarrow>
             invoked =
               Strategy0 # filter (\<lambda>t. rank t \<le> rank s) [Strategy1, Strategy2, Strategy3] @
                 [Strategy4, Strategy5] \<and>
             outcome = Inr (strategy5 pg company_name))) \<and>
     try_subdomains pw urls = List.find (\<lambda>url. probe_subdomain pw url = Inr True) urls \<and>
     third_party_link links =
       first_some (\<lambda>link. case link of
            Inl e \<Rightarrow> None
          | Inr href \<Rightarrow>
              if truthy href \<and> third_party_match (the href) \<noteq> None then href else None)
         links \<and>
     strategy4 pg base_url =
       map_option (\<lambda>(i, pattern). rstrip_slash base_url @ pattern)
         (List.find
            (\<lambda>(i, pattern). probe_direct pg i (rstrip_slash base_url @ pattern) = Inr True)
            (enumerate 0 URL_PATTERNS)) \<and>
     strategy5 pg company_name =
       first_some (\<lambda>query. case search_one pg query of Inl e \<Rightarrow> None | Inr found \<Rightarrow> found)
         (search_queries company_name)"
proof -
  have a: "\<exists>found. outcome = Inr found"
    if ok: "launch pw = Inr () \<and> close_end pw = Inr () \<and> leave pw = Inr ()"
  proof (cases outcome)
    case (Inl e)
    with find_career_page_cases [OF assms] have "check_subdomain_urls pw base_url = Inl e"
      by auto
    from check_subdomain_urls_raises [OF this] ok show ?thesis by simp
  next
    case (Inr found)
    then show ?thesis by blast
  qed
  have b: "Strategy4 \<in> set invoked \<and>
      (\<forall>t. rank s < rank t \<and> rank t < 4 \<longrightarrow> t \<notin> set invoked) \<and>
      (\<forall>u. strategy4 pg base_url = Some u \<longrightarrow>
         invoked =
           Strategy0 # filter (\<lambda>t. rank t \<le> rank s) [Strategy1, Strategy2, Strategy3] @
             [Strategy4] \<and>
         outcome = Inr (Some u)) \<and>
      (strategy4 pg base_url = None \<longrightarrow>
         invoked =
           Strategy0 # filter (\<lambda>t. rank t \<le> rank s) [Strategy1, Strategy2, Strategy3] @
             [Strategy4, Strategy5] \<and>
         outcome = Inr (strategy5 pg company_name))"
    if s: "s \<in> set invoked" "rank s \<in> {1, 2, 3}"
      "attempt pw pg base_url company_name s = Inl e" for s e
  proof -
    note k1 = homepage_error_skips [OF assms s]
    note k2 = homepage_error_continues [OF assms s]
    show ?thesis
      by (rule conjI [OF conjunct1 [OF k1] conjI [OF conjunct2 [OF k1] k2]])
  qed
  have a': "launch pw = Inr () \<and> close_end pw = Inr () \<and> leave pw = Inr () \<longrightarrow>
      (\<exists>found. outcome = Inr found)"
    using a by (rule impI)
  have b': "\<forall>s \<in> set invoked. \<forall>e.
        rank s \<in> {1, 2, 3} \<and> attempt pw pg base_url company_name s = Inl e \<longrightarrow>
          Strategy4 \<in> set invoked \<and>
          (\<forall>t. rank s < rank t \<and> rank t < 4 \<longrightarrow> t \<notin> set invoked) \<and>
          (\<forall>u. strategy4 pg base_url = Some u \<longrightarrow>
             invoked =
               Strategy0 # filter (\<lambda>t. rank t \<le> rank s) [Strategy1, Strategy2, Strategy3] @
                 [Strategy4] \<and>
             outcome = Inr (Some u)) \<and>
          (strategy4 pg base_url = None \<longrightarrow>
             invoked =
               Strategy0 # filter (\<lambda>t. rank t \<le> rank s) [Strategy1, Strategy2, Strategy3] @
                 [Strategy4, Strategy5] \<and>
             outcome = Inr (strategy5 pg company_name))"
  proof (intro ballI allI impI)
    fix s e
    assume "s \<in> set invoked"
      and "rank s \<in> {1, 2, 3} \<and> attempt pw pg base_url company_name s = Inl e"
    then show "Strategy4 \<in> set invoked \<and>
          (\<forall>t. rank s < rank t \<and> rank t < 4 \<longrightarrow> t \<notin> set invoked) \<and>
          (\<forall>u. strategy4 pg base_url = Some u \<longrightarrow>
             invoked =
               Strategy0 # filter (\<lambda>t. rank t \<le> rank s) [Strategy1, Strategy2, Strategy3] @
                 [Strategy4] \<and>
             outcome = Inr (Some u)) \<and>
          (strategy4 pg base_url = None \<longrightarrow>
             invoked =
               Strategy0 # filter (\<lambda>t. rank t \<le> rank s) [Strategy1, Strategy2, Strategy3] @
                 [Strategy4, Strategy5] \<and>
             outcome = Inr (strategy5 pg company_name))"
      using b [of s e] by (elim conjE) 
  qed
  have c1: "try_subdomains pw urls = List.find (\<lambda>url. probe_subdomain pw url = Inr True) urls"
    by (rule try_subdomains_find)
  note c2 = third_party_link_first [of links]
  note c3 = try_patterns_find [of pg base_url "enumerate 0 URL_PATTERNS", folded strategy4_def]
  note c4 = try_queries_first [of pg "search_queries company_name", folded strategy5_def]
  show ?thesis
    by (rule conjI [OF a' conjI [OF b' conjI [OF c1 conjI [OF c2 conjI [OF c3 c4]]]]])
qed

theorem chain_error_isolation_witness:
  "launch dead_playwright = Inr () \<and> close_end dead_playwright = Inr () \<and>
   leave dead_playwright = Inr () \<and>
   Strategy1 \<in> set [Strategy0, Strategy1, Strategy4, Strategy5] \<and>
   rank Strategy1 \<in> {1, 2, 3} \<and>
   attempt dead_playwright hover_fails_page ''https://acme.com'' ''Acme'' Strategy1 =
     Inl TimeoutError \<and>
   strategy4 hover_fails_page ''https://acme.com'' = None \<and>
   find_career_page dead_playwright hover_fails_page ''https://acme.com'' ''Acme'' =
     ([Strategy0, Strategy1, Strategy4, Strategy5], Inr None) \<and>
   [Strategy0, Strategy1, Strategy4, Strategy5] =
     Strategy0 # filter (\<lambda>t. rank t \<le> rank Strategy1) [Strategy1, Strategy2, Strategy3] @
       [Strategy4, Strategy5] \<and>
   (Inr None :: error + string option) = Inr (strategy5 hover_fails_page ''Acme'') \<and>
   Strategy4 \<in> set [Strategy0, Strategy1, Strategy4, Strategy5] \<and>
   Strategy2 \<notin> set [Strategy0, Strategy1, Strategy4, Strategy5] \<and>
   (\<exists>found. (Inr None :: error + string option) = Inr found)"
proof -
  have s1: "attempt dead_playwright hover_fails_page ''https://acme.com'' ''Acme'' Strategy1 =
     Inl TimeoutError"
    using hover_fails_strategies by simp
  have ok: "launch dead_playwright = Inr () \<and> close_end dead_playwright = Inr () \<and>
     leave dead_playwright = Inr ()"
    by (simp add: dead_playwright_def)
  have m: "Strategy1 \<in> set [Strategy0, Strategy1, Strategy4, Strategy5]" by simp
  have r: "rank Strategy1 \<in> {1, 2, 3}" by simp
  have s4: "strategy4 hover_fails_page ''https://acme.com'' = None"
    unfolding hover_fails_page_def dead_page_def by code_simp
  note th = chain_error_isolation [OF hover_fails_run, of "[]" "[]"]
  note escapes = conjunct1 [OF th]
  note isolated = conjunct1 [OF conjunct2 [OF th]]
  from mp [OF escapes ok]
  have a: "\<exists>found. (Inr None :: error + string option) = Inr found" .
  note at_s1 = mp [OF spec [OF bspec [OF isolated m], of TimeoutError] conjI [OF r s1]]
  note four = conjunct1 [OF at_s1]
  note skipped = conjunct1 [OF conjunct2 [OF at_s1]]
  note exhausted = mp [OF conjunct2 [OF conjunct2 [OF conjunct2 [OF at_s1]]] s4]
  from spec [OF skipped, of Strategy2]
  have c: "Strategy2 \<notin> set [Strategy0, Strategy1, Strategy4, Strategy5]" by simp
  note listed = conjunct1 [OF exhausted]
  note last_outcome = conjunct2 [OF exhausted]
  show ?thesis
    by (rule conjI [OF conjunct1 [OF ok]
          conjI [OF conjunct1 [OF conjunct2 [OF ok]]
          conjI [OF conjunct2 [OF conjunct2 [OF ok]]
          conjI [OF m conjI [OF r conjI [OF s1 conjI [OF s4 conjI [OF hover_fails_run
          conjI [OF listed conjI [OF last_outcome conjI [OF four conjI [OF c a]]]]]]]]]]]])
qed

text \<open>
  Every other return of strategies 0 to 4 yields a URL that begins with \<open>http://\<close> or
  \<open>https://\<close> whenever the base URL, stripped of its trailing slashes, does: the
  subdomain URLs are built with the scheme, the navigation, footer and page links go
  through \<open>resolve\<close>, and the direct URLs extend the base URL. Only the third-party
  branch of strategy 1 returns an href untouched.
\<close>

lemma scan_links_absolute:
  "scan_links link_count link_href b texts = Inr (Some u) \<Longrightarrow>
   has_scheme_prefix (rstrip_slash b) \<Longrightarrow> has_scheme_prefix u"
proof (induction texts)
  case Nil
  then show ?case by simp
next
  case (Cons career_text rest)
  then show ?case
    by (auto split: sum.splits if_splits intro: resolve_keeps_scheme)
qed

lemma nav_menus_absolute:
  "nav_menus pg b labels = Inr (Some u) \<Longrightarrow>
   has_scheme_prefix (rstrip_slash b) \<Longrightarrow> has_scheme_prefix u"
proof (induction labels)
  case Nil
  then show ?case by simp
next
  case (Cons nav_text rest)
  then show ?case
    by (auto simp: and_then_def split: sum.splits if_splits dest: scan_links_absolute)
qed

lemma try_patterns_absolute:
  "try_patterns pg b candidates = Some u \<Longrightarrow>
   has_scheme_prefix (rstrip_slash b) \<Longrightarrow> has_scheme_prefix u"
proof (induction candidates)
  case Nil
  then show ?case by simp
next
  case (Cons candidate rest)
  then show ?case
    by (cases candidate)
      (auto simp: Let_def has_scheme_prefix_def split: sum.splits if_splits
        intro: startswith_append)
qed

lemma other_returns_absolute:
  assumes b: "has_scheme_prefix (rstrip_slash b)"
  shows "check_subdomain_urls pw b = Inr (Some u) \<Longrightarrow> has_scheme_prefix u"
    and "strategy1 pg b = Inr (Some u) \<Longrightarrow> has_scheme_prefix u \<or>
      (\<exists>links. all_links pg = Inr links \<and> third_party_link links = Some u)"
    and "strategy2 pg b = Inr (Some u) \<Longrightarrow> has_scheme_prefix u"
    and "strategy3 pg b = Inr (Some u) \<Longrightarrow> has_scheme_prefix u"
    and "strategy4 pg b = Some u \<Longrightarrow> has_scheme_prefix u"
proof -
  show "has_scheme_prefix u" if "check_subdomain_urls pw b = Inr (Some u)"
    using check_subdomain_urls_https [OF that] by (simp add: has_scheme_prefix_def)
  show "has_scheme_prefix u \<or>
      (\<exists>links. all_links pg = Inr links \<and> third_party_link links = Some u)"
    if "strategy1 pg b = Inr (Some u)"
    using that b unfolding strategy1_def and_then_def
    by (auto split: sum.splits option.splits dest: nav_menus_absolute)
  show "has_scheme_prefix u" if "strategy2 pg b = Inr (Some u)"
    using that b unfolding strategy2_def and_then_def
    by (auto split: sum.splits if_splits dest: scan_links_absolute)
  show "has_scheme_prefix u" if "strategy3 pg b = Inr (Some u)"
    using that b unfolding strategy3_def by (rule scan_links_absolute)
  show "has_scheme_prefix u" if "strategy4 pg b = Some u"
    using that b unfolding strategy4_def by (rule try_patterns_absolute)
qed

lemma lever_page_run:
  "find_career_page dead_playwright lever_page ''https://acme.com'' ''Acme'' =
     ([Strategy0, Strategy1], Inr (Some ''//jobs.lever.co/acme''))"
  unfolding dead_playwright_def lever_page_def dead_page_def by code_simp

text \<open>
  Claim C1 at a homepage with a protocol-relative link to a job board: the third-party
  branch of strategy 1 returns the href as found, and it begins with neither \<open>http://\<close>
  nor \<open>https://\<close>.
\<close>

theorem third_party_href_returned_raw:
  "find_career_page dead_playwright lever_page ''https://acme.com'' ''Acme'' =
     ([Strategy0, Strategy1], Inr (Some ''//jobs.lever.co/acme'')) \<and>
   \<not> has_scheme_prefix ''//jobs.lever.co/acme''"
  using lever_page_run by (simp add: has_scheme_prefix_def startswith_def)

section \<open>Properties of the result recorder\<close>














text \<open>
  A short input row, whose website the reader fills with \<open>None\<close>, ends the run at line
  340, before the \<open>try\<close>: no row is appended for its company, and the companies after
  it are not processed.
\<close>

lemma short_row_ends_run:
  "process_companies dead_session [] short_row_input = ([], [], Some AttributeError)"
  unfolding dead_session_def short_row_input_def dead_playwright_def dead_page_def
  by code_simp









end
